theory Spec2Isabelle
  imports Main "HOL-Library.Multiset"
begin

section \<open>Data model (src/types/note.types.ts and the todo types)\<close>

text \<open>
  The two entities are plain records. An optional property (\<^verbatim>\<open>description?: string\<close>)
  is an \<open>option\<close>: \<open>None\<close> is \<^verbatim>\<open>undefined\<close>, which \<^verbatim>\<open>JSON.stringify\<close> drops and
  \<^verbatim>\<open>JSON.parse\<close> gives back as a missing property, read as \<^verbatim>\<open>undefined\<close> again.
\<close>

datatype priority = Low | Medium | High

record Todo =
  todo_id :: string
  todo_title :: string
  todo_description :: "string option"
  todo_completed :: bool
  todo_priority :: priority
  todo_dueDate :: "string option"
  todo_createdAt :: string
  todo_updatedAt :: string

record Note =
  note_id :: string
  note_title :: string
  note_content :: string
  note_category :: "string option"
  note_tags :: "string list option"
  note_isPinned :: bool
  note_createdAt :: string
  note_updatedAt :: string

text \<open>
  \<^verbatim>\<open>CreateTodoDto\<close> and \<^verbatim>\<open>CreateNoteDto\<close>: the create functions only read the
  properties (\<^verbatim>\<open>data.priority\<close>), so a missing property and one set to
  \<^verbatim>\<open>undefined\<close> are the same \<open>None\<close>.
\<close>

record createTodoDto =
  ct_title :: string
  ct_description :: "string option"
  ct_priority :: "priority option"
  ct_dueDate :: "string option"

record createNoteDto =
  cn_title :: string
  cn_content :: string
  cn_category :: "string option"
  cn_tags :: "string list option"
  cn_isPinned :: "bool option"

text \<open>
  \<^verbatim>\<open>UpdateTodoDto\<close> and \<^verbatim>\<open>UpdateNoteDto\<close> are spread over the stored record
  (\<^verbatim>\<open>{...todos[index], ...data}\<close>): a property that is absent keeps the old value, a
  property that is present replaces it, also when its value is \<^verbatim>\<open>undefined\<close> (the forms
  send \<^verbatim>\<open>description: description.trim() || undefined\<close>). So each property is a
  \<open>field\<close>, and the ones that are optional in the record carry an \<open>option\<close> inside
  (a present property that the record requires, such as \<^verbatim>\<open>title\<close>, has a value of
  its type). The dto types have no \<^verbatim>\<open>id\<close>, \<^verbatim>\<open>createdAt\<close> or \<^verbatim>\<open>updatedAt\<close>
  property.
\<close>

datatype 'a field = Absent | Present 'a

record updateTodoDto =
  ut_title :: "string field"
  ut_description :: "string option field"
  ut_priority :: "priority field"
  ut_dueDate :: "string option field"
  ut_completed :: "bool field"

record updateNoteDto =
  un_title :: "string field"
  un_content :: "string field"
  un_category :: "string option field"
  un_tags :: "string list option field"
  un_isPinned :: "bool field"

fun spread :: "'a \<Rightarrow> 'a field \<Rightarrow> 'a" where
  "spread old Absent = old"
| "spread old (Present v) = v"

section \<open>The key-value store, the console and errors\<close>

text \<open>
  A stored text is what \<^verbatim>\<open>JSON.stringify\<close> wrote for a collection (kept as the
  collection: \<^verbatim>\<open>JSON.parse\<close> of it gives the same records back), the empty string,
  or a text on which \<^verbatim>\<open>JSON.parse\<close> throws. The source casts the parsed value to
  \<^verbatim>\<open>Todo[]\<close> or \<^verbatim>\<open>Note[]\<close> without looking at it; a text holding a value of
  another shape is outside these types and is read here like a text that does not parse.
\<close>

datatype stored_text = Todos_json "Todo list" | Notes_json "Note list" | Empty_text | Malformed

datatype err = Error string | StorageFailure | SyntaxError

text \<open>
  The world: the entries of AsyncStorage, the outcome of the coming storage calls
  (\<open>True\<close>: the call is rejected; when the list is used up no call fails), and the
  lines written with \<^verbatim>\<open>console.error\<close>.
\<close>

record world =
  items :: "string \<rightharpoonup> stored_text"
  faults :: "bool list"
  console :: "string list"

definition next_fault :: "world \<Rightarrow> bool \<times> world" where
  "next_fault w =
     (case faults w of [] \<Rightarrow> (False, w) | f # fs \<Rightarrow> (f, w\<lparr>faults := fs\<rparr>))"

definition getItem :: "string \<Rightarrow> world \<Rightarrow> (err + stored_text option) \<times> world" where
  "getItem k w =
     (case next_fault w of
        (True, w1) \<Rightarrow> (Inl StorageFailure, w1)
      | (False, w1) \<Rightarrow> (Inr (items w1 k), w1))"

definition setItem :: "string \<Rightarrow> stored_text \<Rightarrow> world \<Rightarrow> (err + unit) \<times> world" where
  "setItem k v w =
     (case next_fault w of
        (True, w1) \<Rightarrow> (Inl StorageFailure, w1)
      | (False, w1) \<Rightarrow> (Inr (), w1\<lparr>items := (items w1)(k \<mapsto> v)\<rparr>))"

definition removeItem :: "string \<Rightarrow> world \<Rightarrow> (err + unit) \<times> world" where
  "removeItem k w =
     (case next_fault w of
        (True, w1) \<Rightarrow> (Inl StorageFailure, w1)
      | (False, w1) \<Rightarrow> (Inr (), w1\<lparr>items := (items w1)(k := None)\<rparr>))"

definition console_error :: "string \<Rightarrow> world \<Rightarrow> world" where
  "console_error msg w = w\<lparr>console := console w @ [msg]\<rparr>"

fun JSON_parse_todos :: "stored_text \<Rightarrow> err + Todo list" where
  "JSON_parse_todos (Todos_json xs) = Inr xs"
| "JSON_parse_todos _ = Inl SyntaxError"

fun JSON_parse_notes :: "stored_text \<Rightarrow> err + Note list" where
  "JSON_parse_notes (Notes_json xs) = Inr xs"
| "JSON_parse_notes _ = Inl SyntaxError"

section \<open>Built-ins of the language used by the services\<close>

subsection \<open>\<^verbatim>\<open>Date.now().toString()\<close>\<close>

definition digit_char :: "nat \<Rightarrow> char" where
  "digit_char d = ''0123456789'' ! (d mod 10)"

fun decimal :: "nat \<Rightarrow> string" where
  "decimal n = (if n < 10 then [digit_char n] else decimal (n div 10) @ [digit_char n])"

text \<open>A time value is an integer number of milliseconds, printed in decimal.\<close>

definition Number_toString :: "int \<Rightarrow> string" where
  "Number_toString t = (if t < 0 then CHR ''-'' # decimal (nat (- t)) else decimal (nat t))"

subsection \<open>\<^verbatim>\<open>new Date().toISOString()\<close>\<close>

text \<open>
  \<open>pad k n\<close> are the last \<open>k\<close> decimal digits of \<open>n\<close>. The date of a day number
  is computed in the proleptic Gregorian calendar, in UTC, as ECMAScript does.
\<close>

fun pad :: "nat \<Rightarrow> nat \<Rightarrow> string" where
  "pad 0 n = []"
| "pad (Suc k) n = pad k (n div 10) @ [digit_char n]"

text \<open>
  Day number \<open>0\<close> is 1970-01-01. Days are counted from 0000-03-01 in eras of 400
  years (146097 days), so that the leap day is the last day of a year starting in March.
\<close>

definition day_of_era :: "int \<Rightarrow> int" where
  "day_of_era days = (days + 719468) mod 146097"

definition year_of_era :: "int \<Rightarrow> int" where
  "year_of_era doe = (doe - doe div 1460 + doe div 36524 - doe div 146096) div 365"

definition day_of_year :: "int \<Rightarrow> int" where
  "day_of_year doe =
     doe - (365 * year_of_era doe + year_of_era doe div 4 - year_of_era doe div 100)"

definition month_index :: "int \<Rightarrow> int" where
  "month_index doy = (5 * doy + 2) div 153"

definition month_of_day :: "int \<Rightarrow> nat" where
  "month_of_day days =
     (let mp = month_index (day_of_year (day_of_era days))
      in nat (if mp < 10 then mp + 3 else mp - 9))"

definition date_of_day :: "int \<Rightarrow> nat" where
  "date_of_day days =
     (let doy = day_of_year (day_of_era days)
      in nat (doy - (153 * month_index doy + 2) div 5 + 1))"

definition year_of_day :: "int \<Rightarrow> int" where
  "year_of_day days =
     year_of_era (day_of_era days) + ((days + 719468) div 146097) * 400
       + (if month_of_day days \<le> 2 then 1 else 0)"

text \<open>
  Years 0 to 9999 are written with four digits, the others with a sign and six digits
  (every time value a \<^verbatim>\<open>Date\<close> can hold has a year of at most six digits).
\<close>

definition year_string :: "int \<Rightarrow> string" where
  "year_string y =
     (if 0 \<le> y \<and> y \<le> 9999 then pad 4 (nat y)
      else (if y < 0 then CHR ''-'' else CHR ''+'') # pad 6 (nat \<bar>y\<bar>))"

definition time_string :: "nat \<Rightarrow> string" where
  "time_string ms =
     pad 2 (ms div 3600000) @ '':'' @ pad 2 (ms div 60000 mod 60) @ '':''
       @ pad 2 (ms div 1000 mod 60) @ ''.'' @ pad 3 (ms mod 1000)"

definition toISOString :: "int \<Rightarrow> string" where
  "toISOString t =
     year_string (year_of_day (t div 86400000)) @ ''-''
       @ pad 2 (month_of_day (t div 86400000)) @ ''-''
       @ pad 2 (date_of_day (t div 86400000)) @ ''T''
       @ time_string (nat (t mod 86400000)) @ ''Z''"

subsection \<open>\<^verbatim>\<open>Array.prototype.findIndex\<close>, \<^verbatim>\<open>find\<close> and \<^verbatim>\<open>sort\<close>\<close>

text \<open>\<open>None\<close> is the result \<^verbatim>\<open>-1\<close>.\<close>

fun findIndex :: "('a \<Rightarrow> bool) \<Rightarrow> 'a list \<Rightarrow> nat option" where
  "findIndex P [] = None"
| "findIndex P (x # xs) =
     (if P x then Some 0 else (case findIndex P xs of None \<Rightarrow> None | Some i \<Rightarrow> Some (Suc i)))"

text \<open>
  \<^verbatim>\<open>sort\<close> with a comparator is stable; the comparator's number, with \<^verbatim>\<open>NaN\<close>
  (\<open>None\<close>) read as \<open>0\<close>, says whether the first argument goes after the second
  (\<open>> 0\<close>). With a consistent comparator every stable sort returns the list computed
  here, by insertion from the right. With a comparator that is not consistent the order
  is left to the engine, and this is one of the orders it may return; the notes'
  comparator is consistent when every \<open>updatedAt\<close> parses as a date, which holds of
  every record the services write.
\<close>

definition sort_order :: "int option \<Rightarrow> int" where
  "sort_order v = (case v of None \<Rightarrow> 0 | Some n \<Rightarrow> n)"

fun insert_by :: "('a \<Rightarrow> 'a \<Rightarrow> int option) \<Rightarrow> 'a \<Rightarrow> 'a list \<Rightarrow> 'a list" where
  "insert_by c x [] = [x]"
| "insert_by c x (y # ys) =
     (if sort_order (c x y) > 0 then y # insert_by c x ys else x # y # ys)"

definition Array_sort :: "('a \<Rightarrow> 'a \<Rightarrow> int option) \<Rightarrow> 'a list \<Rightarrow> 'a list" where
  "Array_sort c xs = foldr (insert_by c) xs []"

section \<open>TodoService (src/services: the todo service)\<close>

definition TODOS_KEY :: string where
  "TODOS_KEY = ''@todos''"

text \<open>
  \<open>getTodos_try\<close> is the body of the \<^verbatim>\<open>try\<close> block: \<^verbatim>\<open>data ? JSON.parse(data) : []\<close>,
  where \<^verbatim>\<open>null\<close> and the empty string are falsy. \<open>getTodos\<close> adds the \<^verbatim>\<open>catch\<close>,
  which logs and returns the empty array.
\<close>

definition getTodos_try :: "world \<Rightarrow> (err + Todo list) \<times> world" where
  "getTodos_try w =
     (case getItem TODOS_KEY w of
        (Inl e, w1) \<Rightarrow> (Inl e, w1)
      | (Inr None, w1) \<Rightarrow> (Inr [], w1)
      | (Inr (Some Empty_text), w1) \<Rightarrow> (Inr [], w1)
      | (Inr (Some data), w1) \<Rightarrow> (JSON_parse_todos data, w1))"

definition getTodos :: "world \<Rightarrow> (err + Todo list) \<times> world" where
  "getTodos w =
     (case getTodos_try w of
        (Inl e, w1) \<Rightarrow> (Inr [], console_error ''Error loading todos:'' w1)
      | (Inr todos, w1) \<Rightarrow> (Inr todos, w1))"

definition saveTodos :: "Todo list \<Rightarrow> world \<Rightarrow> (err + unit) \<times> world" where
  "saveTodos todos w =
     (case setItem TODOS_KEY (Todos_json todos) w of
        (Inl e, w1) \<Rightarrow> (Inl (Error ''Failed to save todos''), console_error ''Error saving todos:'' w1)
      | (Inr u, w1) \<Rightarrow> (Inr (), w1))"

definition getTodoById :: "string \<Rightarrow> world \<Rightarrow> (err + Todo option) \<times> world" where
  "getTodoById i w =
     (case getTodos w of
        (Inl e, w1) \<Rightarrow> (Inl e, w1)
      | (Inr todos, w1) \<Rightarrow> (Inr (find (\<lambda>todo. todo_id todo = i) todos), w1))"

text \<open>
  The clock is read three times while the new record is built: \<^verbatim>\<open>Date.now()\<close> for the
  id, then \<^verbatim>\<open>new Date()\<close> for \<^verbatim>\<open>createdAt\<close> and again for \<^verbatim>\<open>updatedAt\<close>. The
  three readings are the arguments \<open>now_id\<close>, \<open>now_created\<close> and \<open>now_updated\<close>.
  \<^verbatim>\<open>data.priority || 'medium'\<close>: every priority is a non-empty string, so only
  \<^verbatim>\<open>undefined\<close> gives the default.
\<close>

definition newTodo :: "int \<Rightarrow> int \<Rightarrow> int \<Rightarrow> createTodoDto \<Rightarrow> Todo" where
  "newTodo now_id now_created now_updated data =
     \<lparr> todo_id = Number_toString now_id,
       todo_title = ct_title data,
       todo_description = ct_description data,
       todo_completed = False,
       todo_priority = (case ct_priority data of None \<Rightarrow> Medium | Some p \<Rightarrow> p),
       todo_dueDate = ct_dueDate data,
       todo_createdAt = toISOString now_created,
       todo_updatedAt = toISOString now_updated \<rparr>"

definition createTodo ::
  "int \<Rightarrow> int \<Rightarrow> int \<Rightarrow> createTodoDto \<Rightarrow> world \<Rightarrow> (err + Todo) \<times> world" where
  "createTodo now_id now_created now_updated data w =
     (case getTodos w of
        (Inl e, w1) \<Rightarrow> (Inl e, w1)
      | (Inr todos, w1) \<Rightarrow>
          (case saveTodos (todos @ [newTodo now_id now_created now_updated data]) w1 of
             (Inl e, w2) \<Rightarrow> (Inl e, w2)
           | (Inr u, w2) \<Rightarrow> (Inr (newTodo now_id now_created now_updated data), w2)))"

text \<open>\<^verbatim>\<open>{...todos[index], ...data, updatedAt: new Date().toISOString()}\<close>\<close>

definition updatedTodo :: "int \<Rightarrow> Todo \<Rightarrow> updateTodoDto \<Rightarrow> Todo" where
  "updatedTodo now old data =
     \<lparr> todo_id = todo_id old,
       todo_title = spread (todo_title old) (ut_title data),
       todo_description = spread (todo_description old) (ut_description data),
       todo_completed = spread (todo_completed old) (ut_completed data),
       todo_priority = spread (todo_priority old) (ut_priority data),
       todo_dueDate = spread (todo_dueDate old) (ut_dueDate data),
       todo_createdAt = todo_createdAt old,
       todo_updatedAt = toISOString now \<rparr>"

text \<open>
  The declared result type is \<^verbatim>\<open>Todo | null\<close> (\<open>None\<close> is \<^verbatim>\<open>null\<close>); a missing id
  is the \<^verbatim>\<open>throw new Error('Todo not found')\<close>.
\<close>

definition updateTodo ::
  "int \<Rightarrow> string \<Rightarrow> updateTodoDto \<Rightarrow> world \<Rightarrow> (err + Todo option) \<times> world" where
  "updateTodo now i data w =
     (case getTodos w of
        (Inl e, w1) \<Rightarrow> (Inl e, w1)
      | (Inr todos, w1) \<Rightarrow>
          (case findIndex (\<lambda>todo. todo_id todo = i) todos of
             None \<Rightarrow> (Inl (Error ''Todo not found''), w1)
           | Some index \<Rightarrow>
               (case saveTodos (todos[index := updatedTodo now (todos ! index) data]) w1 of
                  (Inl e, w2) \<Rightarrow> (Inl e, w2)
                | (Inr u, w2) \<Rightarrow> (Inr (Some (updatedTodo now (todos ! index) data)), w2))))"

definition deleteTodo :: "string \<Rightarrow> world \<Rightarrow> (err + unit) \<times> world" where
  "deleteTodo i w =
     (case getTodos w of
        (Inl e, w1) \<Rightarrow> (Inl e, w1)
      | (Inr todos, w1) \<Rightarrow> saveTodos (filter (\<lambda>todo. todo_id todo \<noteq> i) todos) w1)"

definition no_update_todo :: updateTodoDto where
  "no_update_todo =
     \<lparr> ut_title = Absent, ut_description = Absent, ut_priority = Absent,
       ut_dueDate = Absent, ut_completed = Absent \<rparr>"

definition toggleTodo :: "int \<Rightarrow> string \<Rightarrow> world \<Rightarrow> (err + Todo option) \<times> world" where
  "toggleTodo now i w =
     (case getTodoById i w of
        (Inl e, w1) \<Rightarrow> (Inl e, w1)
      | (Inr None, w1) \<Rightarrow> (Inr None, w1)
      | (Inr (Some todo), w1) \<Rightarrow>
          updateTodo now i (no_update_todo\<lparr>ut_completed := Present (\<not> todo_completed todo)\<rparr>) w1)"

definition clearAllTodos :: "world \<Rightarrow> (err + unit) \<times> world" where
  "clearAllTodos w = removeItem TODOS_KEY w"

record todosStats =
  total :: nat
  completed :: nat
  active :: nat
  highPriority :: nat

definition getTodosStats :: "world \<Rightarrow> (err + todosStats) \<times> world" where
  "getTodosStats w =
     (case getTodos w of
        (Inl e, w1) \<Rightarrow> (Inl e, w1)
      | (Inr todos, w1) \<Rightarrow>
          (Inr \<lparr> total = length todos,
                 completed = length (filter (\<lambda>t. todo_completed t) todos),
                 active = length (filter (\<lambda>t. \<not> todo_completed t) todos),
                 highPriority =
                   length (filter (\<lambda>t. todo_priority t = High \<and> \<not> todo_completed t) todos) \<rparr>,
           w1))"

section \<open>NoteService (src/services/noteService.ts)\<close>

definition NOTES_KEY :: string where
  "NOTES_KEY = ''@notes''"

text \<open>
  \<^verbatim>\<open>new Date(s).getTime()\<close> parses a date string; what it accepts beyond the ISO format
  depends on the engine, so the parser is the parameter \<open>parse\<close> of every function
  that sorts. \<open>None\<close> is \<^verbatim>\<open>NaN\<close> (an invalid date), and so is a difference with a
  \<^verbatim>\<open>NaN\<close> operand.
\<close>

definition compareNotes :: "(string \<Rightarrow> int option) \<Rightarrow> Note \<Rightarrow> Note \<Rightarrow> int option" where
  "compareNotes parse a b =
     (if note_isPinned a \<noteq> note_isPinned b then Some (if note_isPinned a then - 1 else 1)
      else (case (parse (note_updatedAt b), parse (note_updatedAt a)) of
              (Some tb, Some ta) \<Rightarrow> Some (tb - ta)
            | _ \<Rightarrow> None))"

definition getNotes_try :: "(string \<Rightarrow> int option) \<Rightarrow> world \<Rightarrow> (err + Note list) \<times> world" where
  "getNotes_try parse w =
     (case getItem NOTES_KEY w of
        (Inl e, w1) \<Rightarrow> (Inl e, w1)
      | (Inr None, w1) \<Rightarrow> (Inr (Array_sort (compareNotes parse) []), w1)
      | (Inr (Some Empty_text), w1) \<Rightarrow> (Inr (Array_sort (compareNotes parse) []), w1)
      | (Inr (Some data), w1) \<Rightarrow>
          (case JSON_parse_notes data of
             Inl e \<Rightarrow> (Inl e, w1)
           | Inr notes \<Rightarrow> (Inr (Array_sort (compareNotes parse) notes), w1)))"

definition getNotes :: "(string \<Rightarrow> int option) \<Rightarrow> world \<Rightarrow> (err + Note list) \<times> world" where
  "getNotes parse w =
     (case getNotes_try parse w of
        (Inl e, w1) \<Rightarrow> (Inr [], console_error ''Error loading notes:'' w1)
      | (Inr notes, w1) \<Rightarrow> (Inr notes, w1))"

definition saveNotes :: "Note list \<Rightarrow> world \<Rightarrow> (err + unit) \<times> world" where
  "saveNotes notes w =
     (case setItem NOTES_KEY (Notes_json notes) w of
        (Inl e, w1) \<Rightarrow> (Inl (Error ''Failed to save notes''), console_error ''Error saving notes:'' w1)
      | (Inr u, w1) \<Rightarrow> (Inr (), w1))"

definition getNoteById ::
  "(string \<Rightarrow> int option) \<Rightarrow> string \<Rightarrow> world \<Rightarrow> (err + Note option) \<times> world" where
  "getNoteById parse i w =
     (case getNotes parse w of
        (Inl e, w1) \<Rightarrow> (Inl e, w1)
      | (Inr notes, w1) \<Rightarrow> (Inr (find (\<lambda>note. note_id note = i) notes), w1))"

text \<open>
  \<^verbatim>\<open>data.tags || []\<close>: an array is truthy, also the empty one.
  \<^verbatim>\<open>data.isPinned || false\<close>.
\<close>

definition newNote :: "int \<Rightarrow> int \<Rightarrow> int \<Rightarrow> createNoteDto \<Rightarrow> Note" where
  "newNote now_id now_created now_updated data =
     \<lparr> note_id = Number_toString now_id,
       note_title = cn_title data,
       note_content = cn_content data,
       note_category = cn_category data,
       note_tags = Some (case cn_tags data of None \<Rightarrow> [] | Some ts \<Rightarrow> ts),
       note_isPinned = (case cn_isPinned data of None \<Rightarrow> False | Some b \<Rightarrow> b),
       note_createdAt = toISOString now_created,
       note_updatedAt = toISOString now_updated \<rparr>"

definition createNote ::
  "(string \<Rightarrow> int option) \<Rightarrow> int \<Rightarrow> int \<Rightarrow> int \<Rightarrow> createNoteDto \<Rightarrow> world
     \<Rightarrow> (err + Note) \<times> world" where
  "createNote parse now_id now_created now_updated data w =
     (case getNotes parse w of
        (Inl e, w1) \<Rightarrow> (Inl e, w1)
      | (Inr notes, w1) \<Rightarrow>
          (case saveNotes (notes @ [newNote now_id now_created now_updated data]) w1 of
             (Inl e, w2) \<Rightarrow> (Inl e, w2)
           | (Inr u, w2) \<Rightarrow> (Inr (newNote now_id now_created now_updated data), w2)))"

definition updatedNote :: "int \<Rightarrow> Note \<Rightarrow> updateNoteDto \<Rightarrow> Note" where
  "updatedNote now old data =
     \<lparr> note_id = note_id old,
       note_title = spread (note_title old) (un_title data),
       note_content = spread (note_content old) (un_content data),
       note_category = spread (note_category old) (un_category data),
       note_tags = spread (note_tags old) (un_tags data),
       note_isPinned = spread (note_isPinned old) (un_isPinned data),
       note_createdAt = note_createdAt old,
       note_updatedAt = toISOString now \<rparr>"

definition updateNote ::
  "(string \<Rightarrow> int option) \<Rightarrow> int \<Rightarrow> string \<Rightarrow> updateNoteDto \<Rightarrow> world
     \<Rightarrow> (err + Note option) \<times> world" where
  "updateNote parse now i data w =
     (case getNotes parse w of
        (Inl e, w1) \<Rightarrow> (Inl e, w1)
      | (Inr notes, w1) \<Rightarrow>
          (case findIndex (\<lambda>note. note_id note = i) notes of
             None \<Rightarrow> (Inl (Error ''Note not found''), w1)
           | Some index \<Rightarrow>
               (case saveNotes (notes[index := updatedNote now (notes ! index) data]) w1 of
                  (Inl e, w2) \<Rightarrow> (Inl e, w2)
                | (Inr u, w2) \<Rightarrow> (Inr (Some (updatedNote now (notes ! index) data)), w2))))"

definition deleteNote :: "(string \<Rightarrow> int option) \<Rightarrow> string \<Rightarrow> world \<Rightarrow> (err + unit) \<times> world" where
  "deleteNote parse i w =
     (case getNotes parse w of
        (Inl e, w1) \<Rightarrow> (Inl e, w1)
      | (Inr notes, w1) \<Rightarrow> saveNotes (filter (\<lambda>note. note_id note \<noteq> i) notes) w1)"

definition no_update_note :: updateNoteDto where
  "no_update_note =
     \<lparr> un_title = Absent, un_content = Absent, un_category = Absent,
       un_tags = Absent, un_isPinned = Absent \<rparr>"

definition togglePinNote ::
  "(string \<Rightarrow> int option) \<Rightarrow> int \<Rightarrow> string \<Rightarrow> world \<Rightarrow> (err + Note option) \<times> world" where
  "togglePinNote parse now i w =
     (case getNoteById parse i w of
        (Inl e, w1) \<Rightarrow> (Inl e, w1)
      | (Inr None, w1) \<Rightarrow> (Inr None, w1)
      | (Inr (Some note), w1) \<Rightarrow>
          updateNote parse now i (no_update_note\<lparr>un_isPinned := Present (\<not> note_isPinned note)\<rparr>) w1)"

definition clearAllNotes :: "world \<Rightarrow> (err + unit) \<times> world" where
  "clearAllNotes w = removeItem NOTES_KEY w"

section \<open>What the store holds\<close>

text \<open>The collection stored under a service's key (empty when there is none to read).\<close>

definition stored_todos :: "world \<Rightarrow> Todo list" where
  "stored_todos w = (case items w TODOS_KEY of Some (Todos_json xs) \<Rightarrow> xs | _ \<Rightarrow> [])"

definition stored_notes :: "world \<Rightarrow> Note list" where
  "stored_notes w = (case items w NOTES_KEY of Some (Notes_json xs) \<Rightarrow> xs | _ \<Rightarrow> [])"

section \<open>Properties the statements below use\<close>

text \<open>
  \<open>next_call_fails\<close>: the coming storage call is rejected. \<open>storage_ok\<close>: no coming
  storage call is.
\<close>

definition next_call_fails :: "world \<Rightarrow> bool" where
  "next_call_fails w = fst (next_fault w)"

definition storage_ok :: "world \<Rightarrow> bool" where
  "storage_ok w = (True \<notin> set (faults w))"

text \<open>
  Every operation that writes reads first, so the write is the second storage call.
  \<open>loaded_todos\<close> and \<open>loaded_notes\<close> are what \<open>getTodos\<close> and \<open>getNotes\<close>
  return.
\<close>

definition second_call_fails :: "world \<Rightarrow> bool" where
  "second_call_fails w = next_call_fails (w\<lparr>faults := tl (faults w)\<rparr>)"

definition loaded_todos :: "world \<Rightarrow> Todo list" where
  "loaded_todos w = (if next_call_fails w then [] else stored_todos w)"

definition loaded_notes :: "(string \<Rightarrow> int option) \<Rightarrow> world \<Rightarrow> Note list" where
  "loaded_notes parse w =
     (if next_call_fails w then [] else Array_sort (compareNotes parse) (stored_notes w))"

text \<open>
  The order \<^verbatim>\<open>sort\<close> works with: \<open>a\<close> may stay before \<open>b\<close>. A comparison of
  times with \<^verbatim>\<open>NaN\<close> is false.
\<close>

definition goes_before :: "('a \<Rightarrow> 'a \<Rightarrow> int option) \<Rightarrow> 'a \<Rightarrow> 'a \<Rightarrow> bool" where
  "goes_before c a b = (sort_order (c a b) \<le> 0)"

definition time_ge :: "int option \<Rightarrow> int option \<Rightarrow> bool" where
  "time_ge a b = (case (a, b) of (Some ta, Some tb) \<Rightarrow> tb \<le> ta | _ \<Rightarrow> False)"

definition pinned_first :: "Note list \<Rightarrow> bool" where
  "pinned_first notes = sorted_wrt (\<lambda>a b. note_isPinned b \<longrightarrow> note_isPinned a) notes"

definition newest_first :: "(string \<Rightarrow> int option) \<Rightarrow> Note list \<Rightarrow> bool" where
  "newest_first parse notes =
     sorted_wrt (\<lambda>a b. note_isPinned a = note_isPinned b \<longrightarrow>
                   time_ge (parse (note_updatedAt a)) (parse (note_updatedAt b))) notes"

definition valid_dates :: "(string \<Rightarrow> int option) \<Rightarrow> Note list \<Rightarrow> bool" where
  "valid_dates parse notes = list_all (\<lambda>n. parse (note_updatedAt n) \<noteq> None) notes"

definition cmp_total_on :: "'a set \<Rightarrow> ('a \<Rightarrow> 'a \<Rightarrow> bool) \<Rightarrow> bool" where
  "cmp_total_on S le = (\<forall>a \<in> S. \<forall>b \<in> S. \<not> le a b \<longrightarrow> le b a)"

definition cmp_trans_on :: "'a set \<Rightarrow> ('a \<Rightarrow> 'a \<Rightarrow> bool) \<Rightarrow> bool" where
  "cmp_trans_on S le = (\<forall>a \<in> S. \<forall>b \<in> S. \<forall>d \<in> S. le a b \<longrightarrow> le b d \<longrightarrow> le a d)"

text \<open>
  The shape of an ISO timestamp: \<open>d\<close> in the pattern is a decimal digit, every other
  character is itself.
\<close>

fun matches :: "string \<Rightarrow> string \<Rightarrow> bool" where
  "matches [] [] = True"
| "matches (p # ps) (c # cs) =
     ((if p = CHR ''d'' then c \<in> set ''0123456789'' else c = p) \<and> matches ps cs)"
| "matches _ _ = False"

definition iso_format :: "string \<Rightarrow> bool" where
  "iso_format s =
     (matches ''dddd-dd-ddTdd:dd:dd.dddZ'' s
      \<or> matches ''+dddddd-dd-ddTdd:dd:dd.dddZ'' s
      \<or> matches ''-dddddd-dd-ddTdd:dd:dd.dddZ'' s)"



section \<open>The operations of a service, as one function\<close>

text \<open>
  A call of a service with its arguments and clock readings, and the function that
  runs it; used to say something about every operation at once.
\<close>

datatype note_call =
    GetNotes
  | GetNoteById string
  | CreateNote int int int createNoteDto
  | UpdateNote int string updateNoteDto
  | DeleteNote string
  | TogglePinNote int string
  | ClearAllNotes

datatype todo_call =
    GetTodos
  | GetTodoById string
  | CreateTodo int int int createTodoDto
  | UpdateTodo int string updateTodoDto
  | DeleteTodo string
  | ToggleTodo int string
  | ClearAllTodos
  | GetTodosStats

datatype reply =
    Todos_reply "err + Todo list"
  | Todo_reply "err + Todo option"
  | New_todo "err + Todo"
  | Stats_reply "err + todosStats"
  | Notes_reply "err + Note list"
  | Note_reply "err + Note option"
  | New_note "err + Note"
  | Void_reply "err + unit"

fun noteService :: "(string \<Rightarrow> int option) \<Rightarrow> note_call \<Rightarrow> world \<Rightarrow> reply \<times> world" where
  "noteService p GetNotes w = apfst Notes_reply (getNotes p w)"
| "noteService p (GetNoteById i) w = apfst Note_reply (getNoteById p i w)"
| "noteService p (CreateNote ti tc tu d) w = apfst New_note (createNote p ti tc tu d w)"
| "noteService p (UpdateNote now i d) w = apfst Note_reply (updateNote p now i d w)"
| "noteService p (DeleteNote i) w = apfst Void_reply (deleteNote p i w)"
| "noteService p (TogglePinNote now i) w = apfst Note_reply (togglePinNote p now i w)"
| "noteService p ClearAllNotes w = apfst Void_reply (clearAllNotes w)"

fun todoService :: "todo_call \<Rightarrow> world \<Rightarrow> reply \<times> world" where
  "todoService GetTodos w = apfst Todos_reply (getTodos w)"
| "todoService (GetTodoById i) w = apfst Todo_reply (getTodoById i w)"
| "todoService (CreateTodo ti tc tu d) w = apfst New_todo (createTodo ti tc tu d w)"
| "todoService (UpdateTodo now i d) w = apfst Todo_reply (updateTodo now i d w)"
| "todoService (DeleteTodo i) w = apfst Void_reply (deleteTodo i w)"
| "todoService (ToggleTodo now i) w = apfst Todo_reply (toggleTodo now i w)"
| "todoService ClearAllTodos w = apfst Void_reply (clearAllTodos w)"
| "todoService GetTodosStats w = apfst Stats_reply (getTodosStats w)"

text \<open>
  \<open>same_entry k v w\<close>: the two worlds hold the same text under \<open>k\<close> and have the
  same coming storage outcomes. \<open>only_entry k w w'\<close>: every entry but the one under
  \<open>k\<close> is in \<open>w'\<close> what it is in \<open>w\<close>.
\<close>

definition same_entry :: "string \<Rightarrow> world \<Rightarrow> world \<Rightarrow> bool" where
  "same_entry k v w = (items v k = items w k \<and> faults v = faults w)"

definition only_entry :: "string \<Rightarrow> world \<Rightarrow> world \<Rightarrow> bool" where
  "only_entry k w w' = (\<forall>k'. k' \<noteq> k \<longrightarrow> items w' k' = items w k')"

section \<open>Example data\<close>

text \<open>
  A store with two todos and three notes, written as the services write them (the notes
  in the order three \<open>createNote\<close> calls leave them in), the same store without notes,
  and a few requests. \<open>engine_parse\<close> is the engine's date parser on the timestamps of
  the examples. A store whose next call is rejected is written
  \<open>home_world\<lparr>faults := [True]\<rparr>\<close>.
\<close>

definition todo_milk :: Todo where
  "todo_milk =
     \<lparr> todo_id = ''1700000000000'', todo_title = ''Buy milk'', todo_description = None,
       todo_completed = False, todo_priority = High, todo_dueDate = None,
       todo_createdAt = ''2023-11-14T22:13:20.000Z'',
       todo_updatedAt = ''2023-11-14T22:13:20.000Z'' \<rparr>"

definition todo_rent :: Todo where
  "todo_rent =
     \<lparr> todo_id = ''1700000060000'', todo_title = ''Pay rent'',
       todo_description = Some ''before Friday'',
       todo_completed = True, todo_priority = High, todo_dueDate = Some ''2023-11-17'',
       todo_createdAt = ''2023-11-14T22:14:20.000Z'',
       todo_updatedAt = ''2023-11-15T08:00:00.000Z'' \<rparr>"

definition note_jan1 :: Note where
  "note_jan1 =
     \<lparr> note_id = ''1704067200000'', note_title = ''Resolutions'', note_content = ''Run'',
       note_category = None, note_tags = Some [], note_isPinned = False,
       note_createdAt = ''2024-01-01T00:00:00.000Z'',
       note_updatedAt = ''2024-01-01T00:00:00.000Z'' \<rparr>"

definition note_jan2 :: Note where
  "note_jan2 =
     \<lparr> note_id = ''1704153600000'', note_title = ''Groceries'', note_content = ''Eggs'',
       note_category = Some ''home'', note_tags = Some [''food''], note_isPinned = False,
       note_createdAt = ''2024-01-02T00:00:00.000Z'',
       note_updatedAt = ''2024-01-02T00:00:00.000Z'' \<rparr>"

definition note_pinned :: Note where
  "note_pinned =
     \<lparr> note_id = ''1703980800000'', note_title = ''Wifi'', note_content = ''hunter2'',
       note_category = None, note_tags = Some [], note_isPinned = True,
       note_createdAt = ''2023-12-31T00:00:00.000Z'',
       note_updatedAt = ''2023-12-31T00:00:00.000Z'' \<rparr>"

definition engine_parse :: "string \<Rightarrow> int option" where
  "engine_parse =
     map_of [(''2023-11-14T22:13:20.000Z'', 1700000000000),
             (''2023-11-14T22:13:20.001Z'', 1700000000001),
             (''2023-12-31T00:00:00.000Z'', 1703980800000),
             (''2024-01-01T00:00:00.000Z'', 1704067200000),
             (''2024-01-02T00:00:00.000Z'', 1704153600000)]"

definition home_world :: world where
  "home_world =
     \<lparr> items = [TODOS_KEY \<mapsto> Todos_json [todo_milk, todo_rent],
                NOTES_KEY \<mapsto> Notes_json [note_pinned, note_jan1, note_jan2]],
       faults = [], console = [] \<rparr>"

definition todo_only_world :: world where
  "todo_only_world =
     \<lparr> items = [TODOS_KEY \<mapsto> Todos_json [todo_milk, todo_rent]], faults = [], console = [] \<rparr>"

definition corrupt_world :: world where
  "corrupt_world =
     \<lparr> items = [TODOS_KEY \<mapsto> Malformed, NOTES_KEY \<mapsto> Malformed],
       faults = [], console = [] \<rparr>"

definition buy_milk :: createTodoDto where
  "buy_milk =
     \<lparr> ct_title = ''Buy milk'', ct_description = None, ct_priority = None, ct_dueDate = None \<rparr>"

definition milk_created :: Todo where
  "milk_created =
     \<lparr> todo_id = ''1700000000000'', todo_title = ''Buy milk'', todo_description = None,
       todo_completed = False, todo_priority = Medium, todo_dueDate = None,
       todo_createdAt = ''2023-11-14T22:13:20.000Z'',
       todo_updatedAt = ''2023-11-14T22:13:20.001Z'' \<rparr>"

definition jot :: createNoteDto where
  "jot =
     \<lparr> cn_title = ''Idea'', cn_content = ''Later'', cn_category = None, cn_tags = None,
       cn_isPinned = None \<rparr>"

definition rename_rent :: updateTodoDto where
  "rename_rent = no_update_todo\<lparr>ut_title := Present ''Pay the rent''\<rparr>"

definition pin_it :: updateNoteDto where
  "pin_it = no_update_note\<lparr>un_isPinned := Present True\<rparr>"

section \<open>The storage calls\<close>

lemma next_fault_cases:
  "next_fault w = (next_call_fails w, w\<lparr>faults := tl (faults w)\<rparr>)"
  by (cases "faults w") (simp_all add: next_fault_def next_call_fails_def)

lemma getItem_eq:
  "getItem k w = (if next_call_fails w then Inl StorageFailure else Inr (items w k),
                  w\<lparr>faults := tl (faults w)\<rparr>)"
  by (simp add: getItem_def next_fault_cases)

lemma setItem_eq:
  "setItem k v w =
     (if next_call_fails w then (Inl StorageFailure, w\<lparr>faults := tl (faults w)\<rparr>)
      else (Inr (), w\<lparr>items := (items w)(k \<mapsto> v), faults := tl (faults w)\<rparr>))"
  by (simp add: setItem_def next_fault_cases)

lemma removeItem_eq:
  "removeItem k w =
     (if next_call_fails w then (Inl StorageFailure, w\<lparr>faults := tl (faults w)\<rparr>)
      else (Inr (), w\<lparr>items := (items w)(k := None), faults := tl (faults w)\<rparr>))"
  by (simp add: removeItem_def next_fault_cases)

lemma storage_ok_next: "storage_ok w \<Longrightarrow> \<not> next_call_fails w"
  by (cases "faults w") (auto simp: storage_ok_def next_call_fails_def next_fault_def)

lemma storage_ok_tl: "storage_ok w \<Longrightarrow> faults w1 = tl (faults w) \<Longrightarrow> storage_ok w1"
  by (cases "faults w") (auto simp: storage_ok_def)

section \<open>Sorting\<close>

lemma mset_insert_by: "mset (insert_by c x ys) = add_mset x (mset ys)"
  by (induction ys) simp_all

lemma mset_Array_sort: "mset (Array_sort c xs) = mset xs"
  unfolding Array_sort_def by (induction xs) (simp_all add: mset_insert_by)

lemma set_insert_by: "set (insert_by c x ys) = insert x (set ys)"
  using mset_insert_by [of c x ys] by (metis set_mset_add_mset_insert set_mset_mset)

lemma set_Array_sort: "set (Array_sort c xs) = set xs"
  using mset_Array_sort [of c xs] by (metis set_mset_mset)

lemma Array_sort_Cons: "Array_sort c (x # xs) = insert_by c x (Array_sort c xs)"
  by (simp add: Array_sort_def)

lemma insert_by_Cons:
  "insert_by c x (y # ys) = (if goes_before c x y then x # y # ys else y # insert_by c x ys)"
  by (simp add: goes_before_def)

lemma sorted_insert_by:
  assumes total: "cmp_total_on S (goes_before c)" and trans: "cmp_trans_on S (goes_before c)"
    and "x \<in> S" "set ys \<subseteq> S" "sorted_wrt (goes_before c) ys"
  shows "sorted_wrt (goes_before c) (insert_by c x ys)"
  using assms(3-)
proof (induction ys)
  case Nil
  then show ?case by simp
next
  case (Cons y ys)
  have tail: "sorted_wrt (goes_before c) ys" and head: "\<forall>z \<in> set ys. goes_before c y z"
    using Cons.prems(3) by simp_all
  have mem: "y \<in> S" "set ys \<subseteq> S"
    using Cons.prems(2) by simp_all
  show ?case
  proof (cases "goes_before c x y")
    case True
    have "goes_before c x z" if "z \<in> set ys" for z
    proof -
      from that head have "goes_before c y z" by blast
      moreover from that mem have "z \<in> S" by blast
      ultimately show ?thesis
        using trans True \<open>x \<in> S\<close> \<open>y \<in> S\<close> unfolding cmp_trans_on_def by blast
    qed
    then have "\<forall>z \<in> set ys. goes_before c x z" by blast
    with True tail head show ?thesis
      unfolding insert_by_Cons by simp
  next
    case False
    then have yx: "goes_before c y x"
      using total \<open>x \<in> S\<close> \<open>y \<in> S\<close> unfolding cmp_total_on_def by blast
    have "sorted_wrt (goes_before c) (insert_by c x ys)"
      using Cons.IH [OF \<open>x \<in> S\<close> mem(2) tail] .
    with False yx head show ?thesis
      unfolding insert_by_Cons by (simp add: set_insert_by)
  qed
qed

lemma sorted_Array_sort:
  assumes "cmp_total_on S (goes_before c)" and "cmp_trans_on S (goes_before c)" and "set xs \<subseteq> S"
  shows "sorted_wrt (goes_before c) (Array_sort c xs)"
  using assms(3)
proof (induction xs)
  case Nil
  then show ?case by (simp add: Array_sort_def)
next
  case (Cons x xs)
  then have "x \<in> S" "set (Array_sort c xs) \<subseteq> S" "sorted_wrt (goes_before c) (Array_sort c xs)"
    by (simp_all add: set_Array_sort)
  then have "sorted_wrt (goes_before c) (insert_by c x (Array_sort c xs))"
    by (rule sorted_insert_by [OF assms(1,2)])
  then show ?case by (simp only: Array_sort_Cons)
qed

lemma Array_sort_sorted_id:
  "sorted_wrt (goes_before c) xs \<Longrightarrow> Array_sort c xs = xs"
proof (induction xs)
  case Nil
  then show ?case by (simp add: Array_sort_def)
next
  case (Cons x xs)
  then have "Array_sort c xs = xs" by simp
  moreover have "insert_by c x xs = x # xs"
    using Cons.prems by (cases xs) (simp_all add: insert_by_Cons del: insert_by.simps(2))
  ultimately show ?case by (simp add: Array_sort_Cons)
qed

lemma goes_before_compareNotes:
  "goes_before (compareNotes p) a b =
     (if note_isPinned a \<noteq> note_isPinned b then note_isPinned a
      else (case (p (note_updatedAt b), p (note_updatedAt a)) of
              (Some tb, Some ta) \<Rightarrow> tb \<le> ta
            | _ \<Rightarrow> True))"
  by (simp add: goes_before_def compareNotes_def sort_order_def split: option.split)

lemma compareNotes_total:
  "\<not> goes_before (compareNotes p) a b \<Longrightarrow> goes_before (compareNotes p) b a"
  unfolding goes_before_compareNotes
  by (cases "p (note_updatedAt a)"; cases "p (note_updatedAt b)") (auto split: if_splits)

lemma compareNotes_trans:
  assumes "p (note_updatedAt a) \<noteq> None" "p (note_updatedAt b) \<noteq> None" "p (note_updatedAt d) \<noteq> None"
    and "goes_before (compareNotes p) a b" "goes_before (compareNotes p) b d"
  shows "goes_before (compareNotes p) a d"
proof -
  obtain ta tb td where "p (note_updatedAt a) = Some ta" "p (note_updatedAt b) = Some tb"
    "p (note_updatedAt d) = Some td"
    using assms(1-3) by auto
  with assms(4,5) show ?thesis
    unfolding goes_before_compareNotes by (auto split: if_splits)
qed

lemma sorted_getNotes_order:
  assumes "valid_dates p xs"
  shows "sorted_wrt (goes_before (compareNotes p)) (Array_sort (compareNotes p) xs)"
proof (rule sorted_Array_sort)
  show "cmp_total_on (set xs) (goes_before (compareNotes p))"
    unfolding cmp_total_on_def using compareNotes_total by blast
next
  have "\<forall>n \<in> set xs. p (note_updatedAt n) \<noteq> None"
    using assms by (simp add: valid_dates_def list_all_iff)
  then show "cmp_trans_on (set xs) (goes_before (compareNotes p))"
    unfolding cmp_trans_on_def using compareNotes_trans by blast
next
  show "set xs \<subseteq> set xs" by simp
qed

lemma goes_before_pinned:
  "goes_before (compareNotes p) a b \<Longrightarrow> note_isPinned b \<Longrightarrow> note_isPinned a"
  unfolding goes_before_compareNotes by (auto split: if_splits)

lemma goes_before_newer:
  "goes_before (compareNotes p) a b \<Longrightarrow> p (note_updatedAt a) \<noteq> None \<Longrightarrow> p (note_updatedAt b) \<noteq> None
     \<Longrightarrow> note_isPinned a = note_isPinned b
     \<Longrightarrow> time_ge (p (note_updatedAt a)) (p (note_updatedAt b))"
  unfolding goes_before_compareNotes by (auto simp: time_ge_def split: if_splits)

lemma sorted_wrt_mono_on:
  "sorted_wrt P xs \<Longrightarrow> (\<And>a b. a \<in> set xs \<Longrightarrow> b \<in> set xs \<Longrightarrow> P a b \<Longrightarrow> Q a b) \<Longrightarrow> sorted_wrt Q xs"
  by (induction xs) auto

lemma Array_sort_pinned_first:
  assumes "valid_dates p xs"
  shows "pinned_first (Array_sort (compareNotes p) xs)"
  unfolding pinned_first_def
  using sorted_getNotes_order [OF assms]
  by (rule sorted_wrt_mono_on) (auto dest: goes_before_pinned)

lemma Array_sort_newest_first:
  assumes "valid_dates p xs"
  shows "newest_first p (Array_sort (compareNotes p) xs)"
  unfolding newest_first_def
  using sorted_getNotes_order [OF assms]
proof (rule sorted_wrt_mono_on)
  fix a b
  assume "a \<in> set (Array_sort (compareNotes p) xs)" "b \<in> set (Array_sort (compareNotes p) xs)"
    and ord: "goes_before (compareNotes p) a b"
  with assms have "p (note_updatedAt a) \<noteq> None" "p (note_updatedAt b) \<noteq> None"
    by (simp_all add: valid_dates_def list_all_iff set_Array_sort)
  with ord show "note_isPinned a = note_isPinned b \<longrightarrow>
           time_ge (p (note_updatedAt a)) (p (note_updatedAt b))"
    by (simp add: goes_before_newer)
qed


section \<open>The operations, one storage call at a time\<close>

lemma next_call_fails_faults: "faults w1 = faults w \<Longrightarrow> next_call_fails w1 = next_call_fails w"
  by (simp add: next_call_fails_def next_fault_def split: list.splits)

lemma next_call_fails_tl:
  "faults w1 = tl (faults w) \<Longrightarrow> next_call_fails w1 = second_call_fails w"
  unfolding second_call_fails_def by (rule next_call_fails_faults) simp

lemma storage_ok_second: "storage_ok w \<Longrightarrow> \<not> second_call_fails w"
  unfolding second_call_fails_def by (rule storage_ok_next) (rule storage_ok_tl, assumption, simp)

lemma findIndex_None: "findIndex P xs = None \<longleftrightarrow> (\<forall>x \<in> set xs. \<not> P x)"
  by (induction xs) (auto split: option.splits)

lemma findIndex_Some:
  "findIndex P xs = Some i \<Longrightarrow> i < length xs \<and> P (xs ! i)"
proof (induction xs arbitrary: i)
  case Nil
  then show ?case by simp
next
  case (Cons x xs)
  then show ?case by (cases "P x") (auto split: option.splits)
qed


lemma getTodos_eq:
  "\<exists>w1. getTodos w = (Inr (loaded_todos w), w1)
        \<and> items w1 = items w \<and> faults w1 = tl (faults w)"
  by (simp add: getTodos_def getTodos_try_def getItem_eq stored_todos_def loaded_todos_def
        console_error_def split: option.splits stored_text.splits)

lemma getNotes_eq:
  "\<exists>w1. getNotes p w = (Inr (loaded_notes p w), w1)
        \<and> items w1 = items w \<and> faults w1 = tl (faults w)"
  by (simp add: getNotes_def getNotes_try_def getItem_eq stored_notes_def loaded_notes_def
        console_error_def Array_sort_def split: option.splits stored_text.splits)

lemma saveTodos_eq:
  "\<exists>w1. saveTodos xs w =
          (if next_call_fails w then Inl (Error ''Failed to save todos'') else Inr (), w1)
        \<and> items w1 = (if next_call_fails w then items w else (items w)(TODOS_KEY \<mapsto> Todos_json xs))
        \<and> faults w1 = tl (faults w)"
  by (simp add: saveTodos_def setItem_eq console_error_def)

lemma saveNotes_eq:
  "\<exists>w1. saveNotes xs w =
          (if next_call_fails w then Inl (Error ''Failed to save notes'') else Inr (), w1)
        \<and> items w1 = (if next_call_fails w then items w else (items w)(NOTES_KEY \<mapsto> Notes_json xs))
        \<and> faults w1 = tl (faults w)"
  by (simp add: saveNotes_def setItem_eq console_error_def)

lemma createTodo_eq:
  "\<exists>w2. createTodo ti tc tu d w =
          (if second_call_fails w then Inl (Error ''Failed to save todos'')
           else Inr (newTodo ti tc tu d), w2)
        \<and> items w2 = (if second_call_fails w then items w
                      else (items w)(TODOS_KEY \<mapsto> Todos_json (loaded_todos w @ [newTodo ti tc tu d])))
        \<and> faults w2 = tl (tl (faults w))"
proof -
  obtain w1 where r: "getTodos w = (Inr (loaded_todos w), w1)" "items w1 = items w"
    "faults w1 = tl (faults w)"
    using getTodos_eq by blast
  have f: "next_call_fails w1 = second_call_fails w"
    using r(3) by (rule next_call_fails_tl)
  obtain w2 where s: "saveTodos (loaded_todos w @ [newTodo ti tc tu d]) w1 =
       (if next_call_fails w1 then Inl (Error ''Failed to save todos'') else Inr (), w2)"
    "items w2 = (if next_call_fails w1 then items w1
                 else (items w1)(TODOS_KEY \<mapsto> Todos_json (loaded_todos w @ [newTodo ti tc tu d])))"
    "faults w2 = tl (faults w1)"
    using saveTodos_eq by blast
  show ?thesis
    using r s f by (simp add: createTodo_def)
qed

lemma deleteTodo_eq:
  "\<exists>w2. deleteTodo i w =
          (if second_call_fails w then Inl (Error ''Failed to save todos'') else Inr (), w2)
        \<and> items w2 = (if second_call_fails w then items w
                      else (items w)(TODOS_KEY \<mapsto>
                             Todos_json (filter (\<lambda>t. todo_id t \<noteq> i) (loaded_todos w))))
        \<and> faults w2 = tl (tl (faults w))"
proof -
  obtain w1 where r: "getTodos w = (Inr (loaded_todos w), w1)" "items w1 = items w"
    "faults w1 = tl (faults w)"
    using getTodos_eq by blast
  have f: "next_call_fails w1 = second_call_fails w"
    using r(3) by (rule next_call_fails_tl)
  obtain w2 where s: "saveTodos (filter (\<lambda>t. todo_id t \<noteq> i) (loaded_todos w)) w1 =
       (if next_call_fails w1 then Inl (Error ''Failed to save todos'') else Inr (), w2)"
    "items w2 = (if next_call_fails w1 then items w1
                 else (items w1)(TODOS_KEY \<mapsto> Todos_json (filter (\<lambda>t. todo_id t \<noteq> i) (loaded_todos w))))"
    "faults w2 = tl (faults w1)"
    using saveTodos_eq by blast
  show ?thesis
    using r s f by (simp add: deleteTodo_def)
qed

lemma updateTodo_missing:
  assumes "findIndex (\<lambda>t. todo_id t = i) (loaded_todos w) = None"
  shows "\<exists>w1. updateTodo now i d w = (Inl (Error ''Todo not found''), w1)
          \<and> items w1 = items w \<and> faults w1 = tl (faults w)"
proof -
  obtain w1 where r: "getTodos w = (Inr (loaded_todos w), w1)" "items w1 = items w"
    "faults w1 = tl (faults w)"
    using getTodos_eq by blast
  with assms show ?thesis by (simp add: updateTodo_def)
qed

lemma updateTodo_found:
  assumes "findIndex (\<lambda>t. todo_id t = i) (loaded_todos w) = Some k"
  shows "\<exists>w2. updateTodo now i d w =
          (if second_call_fails w then Inl (Error ''Failed to save todos'')
           else Inr (Some (updatedTodo now (loaded_todos w ! k) d)), w2)
        \<and> items w2 = (if second_call_fails w then items w
                      else (items w)(TODOS_KEY \<mapsto>
                        Todos_json ((loaded_todos w)[k := updatedTodo now (loaded_todos w ! k) d])))
        \<and> faults w2 = tl (tl (faults w))"
proof -
  obtain w1 where r: "getTodos w = (Inr (loaded_todos w), w1)" "items w1 = items w"
    "faults w1 = tl (faults w)"
    using getTodos_eq by blast
  have f: "next_call_fails w1 = second_call_fails w"
    using r(3) by (rule next_call_fails_tl)
  obtain w2 where s: "saveTodos ((loaded_todos w)[k := updatedTodo now (loaded_todos w ! k) d]) w1 =
       (if next_call_fails w1 then Inl (Error ''Failed to save todos'') else Inr (), w2)"
    "items w2 = (if next_call_fails w1 then items w1
                 else (items w1)(TODOS_KEY \<mapsto> Todos_json ((loaded_todos w)[k := updatedTodo now (loaded_todos w ! k) d])))"
    "faults w2 = tl (faults w1)"
    using saveTodos_eq by blast
  show ?thesis
    using r s f assms by (simp add: updateTodo_def)
qed

lemma getTodoById_eq:
  "\<exists>w1. getTodoById i w = (Inr (find (\<lambda>t. todo_id t = i) (loaded_todos w)), w1)
        \<and> items w1 = items w \<and> faults w1 = tl (faults w)"
proof -
  obtain w1 where r: "getTodos w = (Inr (loaded_todos w), w1)" "items w1 = items w"
    "faults w1 = tl (faults w)"
    using getTodos_eq by blast
  then show ?thesis by (simp add: getTodoById_def)
qed

lemma stored_todos_items:
  "items w1 TODOS_KEY = items w TODOS_KEY \<Longrightarrow> stored_todos w1 = stored_todos w"
  by (simp add: stored_todos_def)

lemma stored_todos_written:
  "items w1 = (items w)(TODOS_KEY \<mapsto> Todos_json xs) \<Longrightarrow> stored_todos w1 = xs"
  by (simp add: stored_todos_def)


lemma createNote_eq:
  "\<exists>w2. createNote p ti tc tu d w =
          (if second_call_fails w then Inl (Error ''Failed to save notes'')
           else Inr (newNote ti tc tu d), w2)
        \<and> items w2 = (if second_call_fails w then items w
                      else (items w)(NOTES_KEY \<mapsto> Notes_json (loaded_notes p w @ [newNote ti tc tu d])))
        \<and> faults w2 = tl (tl (faults w))"
proof -
  obtain w1 where r: "getNotes p w = (Inr (loaded_notes p w), w1)" "items w1 = items w"
    "faults w1 = tl (faults w)"
    using getNotes_eq by blast
  have f: "next_call_fails w1 = second_call_fails w"
    using r(3) by (rule next_call_fails_tl)
  obtain w2 where s: "saveNotes (loaded_notes p w @ [newNote ti tc tu d]) w1 =
       (if next_call_fails w1 then Inl (Error ''Failed to save notes'') else Inr (), w2)"
    "items w2 = (if next_call_fails w1 then items w1
                 else (items w1)(NOTES_KEY \<mapsto> Notes_json (loaded_notes p w @ [newNote ti tc tu d])))"
    "faults w2 = tl (faults w1)"
    using saveNotes_eq by blast
  show ?thesis
    using r s f by (simp add: createNote_def)
qed

lemma deleteNote_eq:
  "\<exists>w2. deleteNote p i w =
          (if second_call_fails w then Inl (Error ''Failed to save notes'') else Inr (), w2)
        \<and> items w2 = (if second_call_fails w then items w
                      else (items w)(NOTES_KEY \<mapsto>
                             Notes_json (filter (\<lambda>n. note_id n \<noteq> i) (loaded_notes p w))))
        \<and> faults w2 = tl (tl (faults w))"
proof -
  obtain w1 where r: "getNotes p w = (Inr (loaded_notes p w), w1)" "items w1 = items w"
    "faults w1 = tl (faults w)"
    using getNotes_eq by blast
  have f: "next_call_fails w1 = second_call_fails w"
    using r(3) by (rule next_call_fails_tl)
  obtain w2 where s: "saveNotes (filter (\<lambda>n. note_id n \<noteq> i) (loaded_notes p w)) w1 =
       (if next_call_fails w1 then Inl (Error ''Failed to save notes'') else Inr (), w2)"
    "items w2 = (if next_call_fails w1 then items w1
                 else (items w1)(NOTES_KEY \<mapsto> Notes_json (filter (\<lambda>n. note_id n \<noteq> i) (loaded_notes p w))))"
    "faults w2 = tl (faults w1)"
    using saveNotes_eq by blast
  show ?thesis
    using r s f by (simp add: deleteNote_def)
qed

lemma updateNote_missing:
  assumes "findIndex (\<lambda>n. note_id n = i) (loaded_notes p w) = None"
  shows "\<exists>w1. updateNote p now i d w = (Inl (Error ''Note not found''), w1)
          \<and> items w1 = items w \<and> faults w1 = tl (faults w)"
proof -
  obtain w1 where r: "getNotes p w = (Inr (loaded_notes p w), w1)" "items w1 = items w"
    "faults w1 = tl (faults w)"
    using getNotes_eq by blast
  with assms show ?thesis by (simp add: updateNote_def)
qed

lemma updateNote_found:
  assumes "findIndex (\<lambda>n. note_id n = i) (loaded_notes p w) = Some k"
  shows "\<exists>w2. updateNote p now i d w =
          (if second_call_fails w then Inl (Error ''Failed to save notes'')
           else Inr (Some (updatedNote now (loaded_notes p w ! k) d)), w2)
        \<and> items w2 = (if second_call_fails w then items w
                      else (items w)(NOTES_KEY \<mapsto>
                        Notes_json ((loaded_notes p w)[k := updatedNote now (loaded_notes p w ! k) d])))
        \<and> faults w2 = tl (tl (faults w))"
proof -
  obtain w1 where r: "getNotes p w = (Inr (loaded_notes p w), w1)" "items w1 = items w"
    "faults w1 = tl (faults w)"
    using getNotes_eq by blast
  have f: "next_call_fails w1 = second_call_fails w"
    using r(3) by (rule next_call_fails_tl)
  obtain w2 where s: "saveNotes ((loaded_notes p w)[k := updatedNote now (loaded_notes p w ! k) d]) w1 =
       (if next_call_fails w1 then Inl (Error ''Failed to save notes'') else Inr (), w2)"
    "items w2 = (if next_call_fails w1 then items w1
                 else (items w1)(NOTES_KEY \<mapsto> Notes_json ((loaded_notes p w)[k := updatedNote now (loaded_notes p w ! k) d])))"
    "faults w2 = tl (faults w1)"
    using saveNotes_eq by blast
  show ?thesis
    using r s f assms by (simp add: updateNote_def)
qed

lemma getNoteById_eq:
  "\<exists>w1. getNoteById p i w = (Inr (find (\<lambda>n. note_id n = i) (loaded_notes p w)), w1)
        \<and> items w1 = items w \<and> faults w1 = tl (faults w)"
proof -
  obtain w1 where r: "getNotes p w = (Inr (loaded_notes p w), w1)" "items w1 = items w"
    "faults w1 = tl (faults w)"
    using getNotes_eq by blast
  then show ?thesis by (simp add: getNoteById_def)
qed

lemma stored_notes_items:
  "items w1 NOTES_KEY = items w NOTES_KEY \<Longrightarrow> stored_notes w1 = stored_notes w"
  by (simp add: stored_notes_def)

lemma stored_notes_written:
  "items w1 = (items w)(NOTES_KEY \<mapsto> Notes_json xs) \<Longrightarrow> stored_notes w1 = xs"
  by (simp add: stored_notes_def)

lemma set_loaded_todos: "set (loaded_todos w) \<subseteq> set (stored_todos w)"
  by (simp add: loaded_todos_def)

lemma set_loaded_notes: "set (loaded_notes p w) \<subseteq> set (stored_notes w)"
  by (simp add: loaded_notes_def set_Array_sort)

lemma getTodosStats_eq:
  "\<exists>w1. getTodosStats w =
      (Inr \<lparr> total = length (loaded_todos w),
             completed = length (filter (\<lambda>t. todo_completed t) (loaded_todos w)),
             active = length (filter (\<lambda>t. \<not> todo_completed t) (loaded_todos w)),
             highPriority = length (filter (\<lambda>t. todo_priority t = High \<and> \<not> todo_completed t)
                                      (loaded_todos w)) \<rparr>, w1)
    \<and> items w1 = items w \<and> faults w1 = tl (faults w)"
proof -
  obtain w1 where r: "getTodos w = (Inr (loaded_todos w), w1)" "items w1 = items w"
    "faults w1 = tl (faults w)"
    using getTodos_eq by blast
  then show ?thesis by (simp add: getTodosStats_def)
qed

lemma length_filter_split:
  "length (filter P xs) + length (filter (\<lambda>x. \<not> P x) xs) = length xs"
  by (induction xs) simp_all

lemma length_filter_conj_split:
  "length (filter P xs) = length (filter (\<lambda>x. P x \<and> \<not> Q x) xs) + length (filter (\<lambda>x. P x \<and> Q x) xs)"
  by (induction xs) simp_all

lemma getTodos_try_fails:
  "isl (fst (getTodos_try w)) \<longleftrightarrow>
     next_call_fails w \<or> items w TODOS_KEY = Some Malformed
       \<or> (\<exists>ns. items w TODOS_KEY = Some (Notes_json ns))"
  by (simp add: getTodos_try_def getItem_eq split: option.splits stored_text.splits)

lemma getNotes_try_fails:
  "isl (fst (getNotes_try p w)) \<longleftrightarrow>
     next_call_fails w \<or> items w NOTES_KEY = Some Malformed
       \<or> (\<exists>ts. items w NOTES_KEY = Some (Todos_json ts))"
  by (simp add: getNotes_try_def getItem_eq split: option.splits stored_text.splits)

lemma loaded_todos_ok: "storage_ok w \<Longrightarrow> loaded_todos w = stored_todos w"
  by (simp add: loaded_todos_def storage_ok_next)

lemma loaded_notes_ok:
  "storage_ok w \<Longrightarrow> loaded_notes p w = Array_sort (compareNotes p) (stored_notes w)"
  by (simp add: loaded_notes_def storage_ok_next)

lemma storage_ok_tl2: "storage_ok w \<Longrightarrow> faults w1 = tl (tl (faults w)) \<Longrightarrow> storage_ok w1"
proof -
  assume ok: "storage_ok w" and f: "faults w1 = tl (tl (faults w))"
  have "set (tl (tl (faults w))) \<subseteq> set (faults w)"
    by (cases "faults w"; cases "tl (faults w)") auto
  with ok f show ?thesis by (auto simp: storage_ok_def)
qed

lemma findIndex_present:
  assumes "\<exists>x \<in> set xs. P x"
  obtains k where "findIndex P xs = Some k" "k < length xs" "P (xs ! k)"
proof -
  from assms have "findIndex P xs \<noteq> None"
    by (simp add: findIndex_None)
  then obtain k where "findIndex P xs = Some k" by blast
  with that findIndex_Some [of P xs k] show ?thesis by blast
qed

section \<open>The shape of \<^verbatim>\<open>toISOString\<close>\<close>

text \<open>Rules that compute \<open>pad\<close> and a timestamp on numerals.\<close>

lemma pad_numeral: "pad (numeral k) n = pad (pred_numeral k) (n div 10) @ [digit_char n]"
  by (subst numeral_eq_Suc) simp

lemmas date_eval = toISOString_def year_string_def time_string_def year_of_day_def
  month_of_day_def date_of_day_def month_index_def day_of_year_def year_of_era_def
  day_of_era_def digit_char_def pad_numeral Number_toString_def

lemma length_pad: "length (pad k n) = k"
  by (induction k arbitrary: n) simp_all

lemma digit_char_digit: "digit_char n \<in> set ''0123456789''"
proof -
  have "n mod 10 < length ''0123456789''" by simp
  then show ?thesis unfolding digit_char_def by (rule nth_mem)
qed

lemma matches_append:
  "length p1 = length s1 \<Longrightarrow> matches (p1 @ p2) (s1 @ s2) = (matches p1 s1 \<and> matches p2 s2)"
  by (induction p1 s1 rule: list_induct2) simp_all

lemma matches_pad: "matches (replicate k (CHR ''d'')) (pad k n)"
proof (induction k arbitrary: n)
  case 0
  then show ?case by simp
next
  case (Suc k)
  have "matches (replicate k (CHR ''d'') @ ''d'') (pad k (n div 10) @ [digit_char n])"
    using Suc [of "n div 10"] digit_char_digit [of n]
    by (subst matches_append) (simp_all add: length_pad del: set_simps)
  then show ?case
    by (simp add: replicate_append_same)
qed

lemma replicate_digits:
  "replicate 2 x = [x, x]" "replicate 3 x = [x, x, x]" "replicate 4 x = [x, x, x, x]"
  "replicate 6 x = [x, x, x, x, x, x]"
proof -
  have "(2::nat) = Suc (Suc 0)" "(3::nat) = Suc (Suc (Suc 0))"
    "(4::nat) = Suc (Suc (Suc (Suc 0)))" "(6::nat) = Suc (Suc (Suc (Suc (Suc (Suc 0)))))"
    by simp_all
  then show "replicate 2 x = [x, x]" "replicate 3 x = [x, x, x]" "replicate 4 x = [x, x, x, x]"
    "replicate 6 x = [x, x, x, x, x, x]"
    by (simp_all only: replicate.simps)
qed

lemma matches_time_string: "matches ''dd:dd:dd.ddd'' (time_string ms)"
proof -
  have "matches (replicate 2 (CHR ''d'') @ '':'' @ replicate 2 (CHR ''d'') @ '':''
           @ replicate 2 (CHR ''d'') @ ''.'' @ replicate 3 (CHR ''d'')) (time_string ms)"
    unfolding time_string_def
    by (simp only: matches_append length_pad length_replicate matches_pad) simp
  then show ?thesis by (simp add: replicate_digits)
qed

lemma matches_date_tail:
  "matches ''-dd-ddTdd:dd:dd.dddZ''
     (''-'' @ pad 2 m @ ''-'' @ pad 2 d @ ''T'' @ time_string ms @ ''Z'')"
proof -
  have l: "length (time_string ms) = length ''dd:dd:dd.ddd''"
    by (simp add: time_string_def length_pad)
  have "matches (''-'' @ replicate 2 (CHR ''d'') @ ''-'' @ replicate 2 (CHR ''d'') @ ''T''
           @ ''dd:dd:dd.ddd'' @ ''Z'')
          (''-'' @ pad 2 m @ ''-'' @ pad 2 d @ ''T'' @ time_string ms @ ''Z'')"
    apply (subst matches_append, simp)
    apply (subst matches_append, simp add: length_pad)
    apply (subst matches_append, simp)
    apply (subst matches_append, simp add: length_pad)
    apply (subst matches_append, simp)
    apply (subst matches_append, rule l [symmetric])
    apply (simp only: matches_pad matches_time_string)
    apply simp
    done
  then show ?thesis by (simp add: replicate_digits)
qed

lemma iso_format_toISOString: "iso_format (toISOString t)"
proof -
  let ?tail = "''-'' @ pad 2 (month_of_day (t div 86400000)) @ ''-''
       @ pad 2 (date_of_day (t div 86400000)) @ ''T'' @ time_string (nat (t mod 86400000)) @ ''Z''"
  let ?y = "year_of_day (t div 86400000)"
  have split: "toISOString t = year_string ?y @ ?tail"
    by (simp add: toISOString_def)
  have tail: "matches ''-dd-ddTdd:dd:dd.dddZ'' ?tail"
    by (rule matches_date_tail)
  have four: "matches (replicate 4 (CHR ''d'') @ ''-dd-ddTdd:dd:dd.dddZ'') (pad 4 n @ ?tail)" for n
    by (subst matches_append) (simp_all only: length_pad length_replicate matches_pad tail)
  have six: "matches (replicate 6 (CHR ''d'') @ ''-dd-ddTdd:dd:dd.dddZ'') (pad 6 n @ ?tail)" for n
    by (subst matches_append) (simp_all only: length_pad length_replicate matches_pad tail)
  show ?thesis
  proof (cases "0 \<le> ?y \<and> ?y \<le> 9999")
    case True
    then have "toISOString t = pad 4 (nat ?y) @ ?tail"
      unfolding split by (simp add: year_string_def)
    moreover have "matches ''dddd-dd-ddTdd:dd:dd.dddZ'' (pad 4 (nat ?y) @ ?tail)"
      using four [of "nat ?y"] by (simp add: replicate_digits)
    ultimately show ?thesis by (simp only: iso_format_def) simp
  next
    case False
    then have "year_string ?y = (if ?y < 0 then CHR ''-'' else CHR ''+'') # pad 6 (nat \<bar>?y\<bar>)"
      unfolding year_string_def by (simp only: if_False)
    then have y: "toISOString t = (if ?y < 0 then CHR ''-'' else CHR ''+'') # pad 6 (nat \<bar>?y\<bar>) @ ?tail"
      unfolding split by simp
    have m: "matches ''dddddd-dd-ddTdd:dd:dd.dddZ'' (pad 6 (nat \<bar>?y\<bar>) @ ?tail)"
      using six [of "nat \<bar>?y\<bar>"] by (simp add: replicate_digits)
    show ?thesis
    proof (cases "?y < 0")
      case True
      with y m have "matches ''-dddddd-dd-ddTdd:dd:dd.dddZ'' (toISOString t)"
        by (simp only: if_True matches.simps) simp
      then show ?thesis by (simp only: iso_format_def) simp
    next
      case False
      with y m have "matches ''+dddddd-dd-ddTdd:dd:dd.dddZ'' (toISOString t)"
        by (simp only: if_False matches.simps) simp
      then show ?thesis by (simp only: iso_format_def) simp
    qed
  qed
qed


section \<open>Deleting, and the records an operation leaves alone\<close>

lemma deleteTodo_ok:
  assumes "storage_ok w"
  shows "\<exists>w1. deleteTodo i w = (Inr (), w1)
           \<and> stored_todos w1 = filter (\<lambda>t. todo_id t \<noteq> i) (stored_todos w)
           \<and> storage_ok w1"
proof -
  obtain w1 where 1: "deleteTodo i w = (Inr (), w1)"
    "items w1 = (items w)(TODOS_KEY \<mapsto> Todos_json (filter (\<lambda>t. todo_id t \<noteq> i) (stored_todos w)))"
    "faults w1 = tl (tl (faults w))"
    using deleteTodo_eq [of i w] storage_ok_second [OF assms] loaded_todos_ok [OF assms]
    by auto
  from 1(2) have "stored_todos w1 = filter (\<lambda>t. todo_id t \<noteq> i) (stored_todos w)"
    by (rule stored_todos_written)
  moreover have "storage_ok w1"
    using assms 1(3) by (rule storage_ok_tl2)
  ultimately show ?thesis using 1(1) by blast
qed

lemma deleteNote_ok:
  assumes "storage_ok w"
  shows "\<exists>w1. deleteNote p i w = (Inr (), w1)
           \<and> stored_notes w1 =
               filter (\<lambda>n. note_id n \<noteq> i) (Array_sort (compareNotes p) (stored_notes w))
           \<and> storage_ok w1"
proof -
  obtain w1 where 1: "deleteNote p i w = (Inr (), w1)"
    "items w1 = (items w)(NOTES_KEY \<mapsto> Notes_json
        (filter (\<lambda>n. note_id n \<noteq> i) (Array_sort (compareNotes p) (stored_notes w))))"
    "faults w1 = tl (tl (faults w))"
    using deleteNote_eq [of p i w] storage_ok_second [OF assms] loaded_notes_ok [OF assms]
    by auto
  from 1(2) have "stored_notes w1 =
      filter (\<lambda>n. note_id n \<noteq> i) (Array_sort (compareNotes p) (stored_notes w))"
    by (rule stored_notes_written)
  moreover have "storage_ok w1"
    using assms 1(3) by (rule storage_ok_tl2)
  ultimately show ?thesis using 1(1) by blast
qed

lemma mset_filter_Array_sort:
  "mset (filter P (Array_sort c xs)) = mset (filter P xs)"
  by (simp add: mset_filter mset_Array_sort del: mset_filter [symmetric])

lemma filter_absent_id: "i \<notin> f ` set xs \<Longrightarrow> filter (\<lambda>x. f x \<noteq> i) xs = xs"
  by (induction xs) auto

lemma loaded_todos_read: "\<not> next_call_fails w \<Longrightarrow> loaded_todos w = stored_todos w"
  by (simp add: loaded_todos_def)

lemma loaded_notes_read:
  "\<not> next_call_fails w \<Longrightarrow> loaded_notes p w = Array_sort (compareNotes p) (stored_notes w)"
  by (simp add: loaded_notes_def)











section \<open>What an operation reads and writes\<close>

lemma only_entry_same_items: "items w' = items w \<Longrightarrow> only_entry k w w'"
  by (simp add: only_entry_def)

lemma only_entry_written:
  "items w' = (if c then items w else (items w)(k \<mapsto> x)) \<Longrightarrow> only_entry k w w'"
  by (simp add: only_entry_def)

lemma only_entry_trans: "only_entry k w w1 \<Longrightarrow> only_entry k w1 w2 \<Longrightarrow> only_entry k w w2"
  by (simp add: only_entry_def)

lemma next_call_fails_iff: "next_call_fails w = (case faults w of [] \<Rightarrow> False | f # fs \<Rightarrow> f)"
  by (simp add: next_call_fails_def next_fault_def split: list.split)

lemma same_entry_loaded_todos: "same_entry TODOS_KEY v w \<Longrightarrow> loaded_todos v = loaded_todos w"
  by (simp add: same_entry_def loaded_todos_def stored_todos_def next_call_fails_iff)

lemma same_entry_loaded_notes: "same_entry NOTES_KEY v w \<Longrightarrow> loaded_notes p v = loaded_notes p w"
  by (simp add: same_entry_def loaded_notes_def stored_notes_def next_call_fails_iff)

lemma same_entry_second: "same_entry k v w \<Longrightarrow> second_call_fails v = second_call_fails w"
  by (simp add: same_entry_def second_call_fails_def next_call_fails_iff)

lemma same_entry_next: "same_entry k v w \<Longrightarrow> next_call_fails v = next_call_fails w"
  by (simp add: same_entry_def next_call_fails_iff)

lemma same_entry_after_read:
  "same_entry k v w \<Longrightarrow> items v1 = items v \<Longrightarrow> faults v1 = tl (faults v)
     \<Longrightarrow> items w1 = items w \<Longrightarrow> faults w1 = tl (faults w) \<Longrightarrow> same_entry k v1 w1"
  by (simp add: same_entry_def)

lemma same_entry_after_write:
  "same_entry k v w \<Longrightarrow> items v2 = (if c then items v else (items v)(k \<mapsto> x))
     \<Longrightarrow> faults v2 = tl (tl (faults v))
     \<Longrightarrow> items w2 = (if c then items w else (items w)(k \<mapsto> x))
     \<Longrightarrow> faults w2 = tl (tl (faults w)) \<Longrightarrow> same_entry k v2 w2"
  by (simp add: same_entry_def)


lemma getTodos_same:
  assumes "same_entry TODOS_KEY v w"
  shows "fst (getTodos v) = fst (getTodos w)
       \<and> same_entry TODOS_KEY (snd (getTodos v)) (snd (getTodos w))"
proof -
  obtain v1 where v: "getTodos v = (Inr (loaded_todos v), v1)" "items v1 = items v"
    "faults v1 = tl (faults v)"
    using getTodos_eq by blast
  obtain w1 where w: "getTodos w = (Inr (loaded_todos w), w1)" "items w1 = items w"
    "faults w1 = tl (faults w)"
    using getTodos_eq by blast
  have "same_entry TODOS_KEY v1 w1"
    using assms v(2,3) w(2,3) by (rule same_entry_after_read)
  then show ?thesis
    using v(1) w(1) same_entry_loaded_todos [OF assms] by simp
qed

lemma getTodos_frame: "only_entry TODOS_KEY w (snd (getTodos w))"
proof -
  obtain w1 where "getTodos w = (Inr (loaded_todos w), w1)" "items w1 = items w"
    using getTodos_eq by blast
  then show ?thesis
    using only_entry_same_items [of w1 w TODOS_KEY] by simp
qed

lemma getTodoById_same:
  assumes "same_entry TODOS_KEY v w"
  shows "fst (getTodoById i v) = fst (getTodoById i w)
       \<and> same_entry TODOS_KEY (snd (getTodoById i v)) (snd (getTodoById i w))"
proof -
  obtain v1 where v: "getTodoById i v = (Inr (find (\<lambda>t. todo_id t = i) (loaded_todos v)), v1)"
    "items v1 = items v" "faults v1 = tl (faults v)"
    using getTodoById_eq by blast
  obtain w1 where w: "getTodoById i w = (Inr (find (\<lambda>t. todo_id t = i) (loaded_todos w)), w1)"
    "items w1 = items w" "faults w1 = tl (faults w)"
    using getTodoById_eq by blast
  have "same_entry TODOS_KEY v1 w1"
    using assms v(2,3) w(2,3) by (rule same_entry_after_read)
  then show ?thesis
    using v(1) w(1) same_entry_loaded_todos [OF assms] by simp
qed

lemma getTodoById_frame: "only_entry TODOS_KEY w (snd (getTodoById i w))"
proof -
  obtain w1 where "getTodoById i w = (Inr (find (\<lambda>t. todo_id t = i) (loaded_todos w)), w1)"
    "items w1 = items w"
    using getTodoById_eq by blast
  then show ?thesis
    using only_entry_same_items [of w1 w TODOS_KEY] by simp
qed

lemma createTodo_same:
  assumes "same_entry TODOS_KEY v w"
  shows "fst (createTodo ti tc tu d v) = fst (createTodo ti tc tu d w)
       \<and> same_entry TODOS_KEY (snd (createTodo ti tc tu d v)) (snd (createTodo ti tc tu d w))"
proof -
  let ?c = "second_call_fails w"
  let ?x = "Todos_json (loaded_todos w @ [newTodo ti tc tu d])"
  note l = same_entry_loaded_todos [OF assms] and s = same_entry_second [OF assms]
  obtain v2 where v: "createTodo ti tc tu d v =
      (if ?c then Inl (Error ''Failed to save todos'') else Inr (newTodo ti tc tu d), v2)"
    "items v2 = (if ?c then items v else (items v)(TODOS_KEY \<mapsto> ?x))"
    "faults v2 = tl (tl (faults v))"
    using createTodo_eq [where w = v] unfolding l s by blast
  obtain w2 where w: "createTodo ti tc tu d w =
      (if ?c then Inl (Error ''Failed to save todos'') else Inr (newTodo ti tc tu d), w2)"
    "items w2 = (if ?c then items w else (items w)(TODOS_KEY \<mapsto> ?x))"
    "faults w2 = tl (tl (faults w))"
    using createTodo_eq by blast
  have "same_entry TODOS_KEY v2 w2"
    using assms v(2,3) w(2,3) by (rule same_entry_after_write)
  then show ?thesis
    using v(1) w(1) by simp
qed

lemma createTodo_frame: "only_entry TODOS_KEY w (snd (createTodo ti tc tu d w))"
proof -
  obtain w2 where "createTodo ti tc tu d w =
      (if second_call_fails w then Inl (Error ''Failed to save todos'')
       else Inr (newTodo ti tc tu d), w2)"
    "items w2 = (if second_call_fails w then items w
       else (items w)(TODOS_KEY \<mapsto> Todos_json (loaded_todos w @ [newTodo ti tc tu d])))"
    using createTodo_eq by blast
  then show ?thesis
    using only_entry_written [of w2 _ w TODOS_KEY] by simp
qed

lemma deleteTodo_same:
  assumes "same_entry TODOS_KEY v w"
  shows "fst (deleteTodo i v) = fst (deleteTodo i w)
       \<and> same_entry TODOS_KEY (snd (deleteTodo i v)) (snd (deleteTodo i w))"
proof -
  let ?c = "second_call_fails w"
  let ?x = "Todos_json (filter (\<lambda>t. todo_id t \<noteq> i) (loaded_todos w))"
  note l = same_entry_loaded_todos [OF assms] and s = same_entry_second [OF assms]
  obtain v2 where v: "deleteTodo i v =
      (if ?c then Inl (Error ''Failed to save todos'') else Inr (), v2)"
    "items v2 = (if ?c then items v else (items v)(TODOS_KEY \<mapsto> ?x))"
    "faults v2 = tl (tl (faults v))"
    using deleteTodo_eq [where w = v] unfolding l s by blast
  obtain w2 where w: "deleteTodo i w =
      (if ?c then Inl (Error ''Failed to save todos'') else Inr (), w2)"
    "items w2 = (if ?c then items w else (items w)(TODOS_KEY \<mapsto> ?x))"
    "faults w2 = tl (tl (faults w))"
    using deleteTodo_eq by blast
  have "same_entry TODOS_KEY v2 w2"
    using assms v(2,3) w(2,3) by (rule same_entry_after_write)
  then show ?thesis
    using v(1) w(1) by simp
qed

lemma deleteTodo_frame: "only_entry TODOS_KEY w (snd (deleteTodo i w))"
proof -
  obtain w2 where "deleteTodo i w =
      (if second_call_fails w then Inl (Error ''Failed to save todos'') else Inr (), w2)"
    "items w2 = (if second_call_fails w then items w
       else (items w)(TODOS_KEY \<mapsto> Todos_json (filter (\<lambda>t. todo_id t \<noteq> i) (loaded_todos w))))"
    using deleteTodo_eq by blast
  then show ?thesis
    using only_entry_written [of w2 _ w TODOS_KEY] by simp
qed

lemma updateTodo_same:
  assumes "same_entry TODOS_KEY v w"
  shows "fst (updateTodo now i d v) = fst (updateTodo now i d w)
       \<and> same_entry TODOS_KEY (snd (updateTodo now i d v)) (snd (updateTodo now i d w))"
proof (cases "findIndex (\<lambda>t. todo_id t = i) (loaded_todos w)")
  case None
  note l = same_entry_loaded_todos [OF assms]
  obtain v1 where v: "updateTodo now i d v = (Inl (Error ''Todo not found''), v1)"
    "items v1 = items v" "faults v1 = tl (faults v)"
    using updateTodo_missing [where w = v] None unfolding l by blast
  obtain w1 where w: "updateTodo now i d w = (Inl (Error ''Todo not found''), w1)"
    "items w1 = items w" "faults w1 = tl (faults w)"
    using updateTodo_missing None by blast
  have "same_entry TODOS_KEY v1 w1"
    using assms v(2,3) w(2,3) by (rule same_entry_after_read)
  then show ?thesis
    using v(1) w(1) by simp
next
  case (Some k)
  let ?c = "second_call_fails w"
  let ?t = "updatedTodo now (loaded_todos w ! k) d"
  let ?x = "Todos_json ((loaded_todos w)[k := ?t])"
  note l = same_entry_loaded_todos [OF assms] and s = same_entry_second [OF assms]
  obtain v2 where v: "updateTodo now i d v =
      (if ?c then Inl (Error ''Failed to save todos'') else Inr (Some ?t), v2)"
    "items v2 = (if ?c then items v else (items v)(TODOS_KEY \<mapsto> ?x))"
    "faults v2 = tl (tl (faults v))"
    using updateTodo_found [where w = v] Some unfolding l s by blast
  obtain w2 where w: "updateTodo now i d w =
      (if ?c then Inl (Error ''Failed to save todos'') else Inr (Some ?t), w2)"
    "items w2 = (if ?c then items w else (items w)(TODOS_KEY \<mapsto> ?x))"
    "faults w2 = tl (tl (faults w))"
    using updateTodo_found Some by blast
  have "same_entry TODOS_KEY v2 w2"
    using assms v(2,3) w(2,3) by (rule same_entry_after_write)
  then show ?thesis
    using v(1) w(1) by simp
qed

lemma updateTodo_frame: "only_entry TODOS_KEY w (snd (updateTodo now i d w))"
proof (cases "findIndex (\<lambda>t. todo_id t = i) (loaded_todos w)")
  case None
  then obtain w1 where "updateTodo now i d w = (Inl (Error ''Todo not found''), w1)"
    "items w1 = items w"
    using updateTodo_missing by blast
  then show ?thesis
    using only_entry_same_items [of w1 w TODOS_KEY] by simp
next
  case (Some k)
  then obtain w2 where "updateTodo now i d w =
      (if second_call_fails w then Inl (Error ''Failed to save todos'')
       else Inr (Some (updatedTodo now (loaded_todos w ! k) d)), w2)"
    "items w2 = (if second_call_fails w then items w
       else (items w)(TODOS_KEY \<mapsto>
         Todos_json ((loaded_todos w)[k := updatedTodo now (loaded_todos w ! k) d])))"
    using updateTodo_found by blast
  then show ?thesis
    using only_entry_written [of w2 _ w TODOS_KEY] by simp
qed

lemma toggleTodo_same:
  assumes "same_entry TODOS_KEY v w"
  shows "fst (toggleTodo now i v) = fst (toggleTodo now i w)
       \<and> same_entry TODOS_KEY (snd (toggleTodo now i v)) (snd (toggleTodo now i w))"
proof -
  obtain r v1 w1 where g: "getTodoById i v = (Inr r, v1)" "getTodoById i w = (Inr r, w1)"
    and s: "same_entry TODOS_KEY v1 w1"
  proof -
    obtain v1 where v: "getTodoById i v = (Inr (find (\<lambda>t. todo_id t = i) (loaded_todos v)), v1)"
      using getTodoById_eq by blast
    obtain w1 where w: "getTodoById i w = (Inr (find (\<lambda>t. todo_id t = i) (loaded_todos w)), w1)"
      using getTodoById_eq by blast
    from getTodoById_same [OF assms, of i] v w same_entry_loaded_todos [OF assms] that
    show ?thesis by simp
  qed
  show ?thesis
  proof (cases r)
    case None
    with g s show ?thesis by (simp add: toggleTodo_def)
  next
    case (Some t)
    with g updateTodo_same [OF s] show ?thesis by (simp add: toggleTodo_def)
  qed
qed

lemma toggleTodo_frame: "only_entry TODOS_KEY w (snd (toggleTodo now i w))"
proof -
  obtain r w1 where g: "getTodoById i w = (Inr r, w1)"
    using getTodoById_eq by blast
  then have f: "only_entry TODOS_KEY w w1"
    using getTodoById_frame [of w i] by simp
  show ?thesis
  proof (cases r)
    case None
    with g f show ?thesis by (simp add: toggleTodo_def)
  next
    case (Some t)
    have "only_entry TODOS_KEY w
        (snd (updateTodo now i (no_update_todo\<lparr>ut_completed := Present (\<not> todo_completed t)\<rparr>) w1))"
      using f updateTodo_frame by (rule only_entry_trans)
    with g Some show ?thesis by (simp add: toggleTodo_def)
  qed
qed

lemma clearAllTodos_same:
  assumes "same_entry TODOS_KEY v w"
  shows "fst (clearAllTodos v) = fst (clearAllTodos w)
       \<and> same_entry TODOS_KEY (snd (clearAllTodos v)) (snd (clearAllTodos w))"
  using assms same_entry_next [OF assms]
  by (simp add: clearAllTodos_def removeItem_eq same_entry_def)

lemma clearAllTodos_frame: "only_entry TODOS_KEY w (snd (clearAllTodos w))"
  by (simp add: clearAllTodos_def removeItem_eq only_entry_def)

lemma getNotes_same:
  assumes "same_entry NOTES_KEY v w"
  shows "fst (getNotes p v) = fst (getNotes p w)
       \<and> same_entry NOTES_KEY (snd (getNotes p v)) (snd (getNotes p w))"
proof -
  obtain v1 where v: "getNotes p v = (Inr (loaded_notes p v), v1)" "items v1 = items v"
    "faults v1 = tl (faults v)"
    using getNotes_eq by blast
  obtain w1 where w: "getNotes p w = (Inr (loaded_notes p w), w1)" "items w1 = items w"
    "faults w1 = tl (faults w)"
    using getNotes_eq by blast
  have "same_entry NOTES_KEY v1 w1"
    using assms v(2,3) w(2,3) by (rule same_entry_after_read)
  then show ?thesis
    using v(1) w(1) same_entry_loaded_notes [OF assms] by simp
qed

lemma getNotes_frame: "only_entry NOTES_KEY w (snd (getNotes p w))"
proof -
  obtain w1 where "getNotes p w = (Inr (loaded_notes p w), w1)" "items w1 = items w"
    using getNotes_eq by blast
  then show ?thesis
    using only_entry_same_items [of w1 w NOTES_KEY] by simp
qed

lemma getNoteById_same:
  assumes "same_entry NOTES_KEY v w"
  shows "fst (getNoteById p i v) = fst (getNoteById p i w)
       \<and> same_entry NOTES_KEY (snd (getNoteById p i v)) (snd (getNoteById p i w))"
proof -
  obtain v1 where v: "getNoteById p i v = (Inr (find (\<lambda>t. note_id t = i) (loaded_notes p v)), v1)"
    "items v1 = items v" "faults v1 = tl (faults v)"
    using getNoteById_eq by blast
  obtain w1 where w: "getNoteById p i w = (Inr (find (\<lambda>t. note_id t = i) (loaded_notes p w)), w1)"
    "items w1 = items w" "faults w1 = tl (faults w)"
    using getNoteById_eq by blast
  have "same_entry NOTES_KEY v1 w1"
    using assms v(2,3) w(2,3) by (rule same_entry_after_read)
  then show ?thesis
    using v(1) w(1) same_entry_loaded_notes [OF assms] by simp
qed

lemma getNoteById_frame: "only_entry NOTES_KEY w (snd (getNoteById p i w))"
proof -
  obtain w1 where "getNoteById p i w = (Inr (find (\<lambda>t. note_id t = i) (loaded_notes p w)), w1)"
    "items w1 = items w"
    using getNoteById_eq by blast
  then show ?thesis
    using only_entry_same_items [of w1 w NOTES_KEY] by simp
qed

lemma createNote_same:
  assumes "same_entry NOTES_KEY v w"
  shows "fst (createNote p ti tc tu d v) = fst (createNote p ti tc tu d w)
       \<and> same_entry NOTES_KEY (snd (createNote p ti tc tu d v)) (snd (createNote p ti tc tu d w))"
proof -
  let ?c = "second_call_fails w"
  let ?x = "Notes_json (loaded_notes p w @ [newNote ti tc tu d])"
  note l = same_entry_loaded_notes [OF assms] and s = same_entry_second [OF assms]
  obtain v2 where v: "createNote p ti tc tu d v =
      (if ?c then Inl (Error ''Failed to save notes'') else Inr (newNote ti tc tu d), v2)"
    "items v2 = (if ?c then items v else (items v)(NOTES_KEY \<mapsto> ?x))"
    "faults v2 = tl (tl (faults v))"
    using createNote_eq [where w = v] unfolding l s by blast
  obtain w2 where w: "createNote p ti tc tu d w =
      (if ?c then Inl (Error ''Failed to save notes'') else Inr (newNote ti tc tu d), w2)"
    "items w2 = (if ?c then items w else (items w)(NOTES_KEY \<mapsto> ?x))"
    "faults w2 = tl (tl (faults w))"
    using createNote_eq by blast
  have "same_entry NOTES_KEY v2 w2"
    using assms v(2,3) w(2,3) by (rule same_entry_after_write)
  then show ?thesis
    using v(1) w(1) by simp
qed

lemma createNote_frame: "only_entry NOTES_KEY w (snd (createNote p ti tc tu d w))"
proof -
  obtain w2 where "createNote p ti tc tu d w =
      (if second_call_fails w then Inl (Error ''Failed to save notes'')
       else Inr (newNote ti tc tu d), w2)"
    "items w2 = (if second_call_fails w then items w
       else (items w)(NOTES_KEY \<mapsto> Notes_json (loaded_notes p w @ [newNote ti tc tu d])))"
    using createNote_eq by blast
  then show ?thesis
    using only_entry_written [of w2 _ w NOTES_KEY] by simp
qed

lemma deleteNote_same:
  assumes "same_entry NOTES_KEY v w"
  shows "fst (deleteNote p i v) = fst (deleteNote p i w)
       \<and> same_entry NOTES_KEY (snd (deleteNote p i v)) (snd (deleteNote p i w))"
proof -
  let ?c = "second_call_fails w"
  let ?x = "Notes_json (filter (\<lambda>t. note_id t \<noteq> i) (loaded_notes p w))"
  note l = same_entry_loaded_notes [OF assms] and s = same_entry_second [OF assms]
  obtain v2 where v: "deleteNote p i v =
      (if ?c then Inl (Error ''Failed to save notes'') else Inr (), v2)"
    "items v2 = (if ?c then items v else (items v)(NOTES_KEY \<mapsto> ?x))"
    "faults v2 = tl (tl (faults v))"
    using deleteNote_eq [where w = v] unfolding l s by blast
  obtain w2 where w: "deleteNote p i w =
      (if ?c then Inl (Error ''Failed to save notes'') else Inr (), w2)"
    "items w2 = (if ?c then items w else (items w)(NOTES_KEY \<mapsto> ?x))"
    "faults w2 = tl (tl (faults w))"
    using deleteNote_eq by blast
  have "same_entry NOTES_KEY v2 w2"
    using assms v(2,3) w(2,3) by (rule same_entry_after_write)
  then show ?thesis
    using v(1) w(1) by simp
qed

lemma deleteNote_frame: "only_entry NOTES_KEY w (snd (deleteNote p i w))"
proof -
  obtain w2 where "deleteNote p i w =
      (if second_call_fails w then Inl (Error ''Failed to save notes'') else Inr (), w2)"
    "items w2 = (if second_call_fails w then items w
       else (items w)(NOTES_KEY \<mapsto> Notes_json (filter (\<lambda>t. note_id t \<noteq> i) (loaded_notes p w))))"
    using deleteNote_eq by blast
  then show ?thesis
    using only_entry_written [of w2 _ w NOTES_KEY] by simp
qed

lemma updateNote_same:
  assumes "same_entry NOTES_KEY v w"
  shows "fst (updateNote p now i d v) = fst (updateNote p now i d w)
       \<and> same_entry NOTES_KEY (snd (updateNote p now i d v)) (snd (updateNote p now i d w))"
proof (cases "findIndex (\<lambda>t. note_id t = i) (loaded_notes p w)")
  case None
  note l = same_entry_loaded_notes [OF assms]
  obtain v1 where v: "updateNote p now i d v = (Inl (Error ''Note not found''), v1)"
    "items v1 = items v" "faults v1 = tl (faults v)"
    using updateNote_missing [where w = v] None unfolding l by blast
  obtain w1 where w: "updateNote p now i d w = (Inl (Error ''Note not found''), w1)"
    "items w1 = items w" "faults w1 = tl (faults w)"
    using updateNote_missing None by blast
  have "same_entry NOTES_KEY v1 w1"
    using assms v(2,3) w(2,3) by (rule same_entry_after_read)
  then show ?thesis
    using v(1) w(1) by simp
next
  case (Some k)
  let ?c = "second_call_fails w"
  let ?t = "updatedNote now (loaded_notes p w ! k) d"
  let ?x = "Notes_json ((loaded_notes p w)[k := ?t])"
  note l = same_entry_loaded_notes [OF assms] and s = same_entry_second [OF assms]
  obtain v2 where v: "updateNote p now i d v =
      (if ?c then Inl (Error ''Failed to save notes'') else Inr (Some ?t), v2)"
    "items v2 = (if ?c then items v else (items v)(NOTES_KEY \<mapsto> ?x))"
    "faults v2 = tl (tl (faults v))"
    using updateNote_found [where w = v] Some unfolding l s by blast
  obtain w2 where w: "updateNote p now i d w =
      (if ?c then Inl (Error ''Failed to save notes'') else Inr (Some ?t), w2)"
    "items w2 = (if ?c then items w else (items w)(NOTES_KEY \<mapsto> ?x))"
    "faults w2 = tl (tl (faults w))"
    using updateNote_found Some by blast
  have "same_entry NOTES_KEY v2 w2"
    using assms v(2,3) w(2,3) by (rule same_entry_after_write)
  then show ?thesis
    using v(1) w(1) by simp
qed

lemma updateNote_frame: "only_entry NOTES_KEY w (snd (updateNote p now i d w))"
proof (cases "findIndex (\<lambda>t. note_id t = i) (loaded_notes p w)")
  case None
  then obtain w1 where "updateNote p now i d w = (Inl (Error ''Note not found''), w1)"
    "items w1 = items w"
    using updateNote_missing by blast
  then show ?thesis
    using only_entry_same_items [of w1 w NOTES_KEY] by simp
next
  case (Some k)
  then obtain w2 where "updateNote p now i d w =
      (if second_call_fails w then Inl (Error ''Failed to save notes'')
       else Inr (Some (updatedNote now (loaded_notes p w ! k) d)), w2)"
    "items w2 = (if second_call_fails w then items w
       else (items w)(NOTES_KEY \<mapsto>
         Notes_json ((loaded_notes p w)[k := updatedNote now (loaded_notes p w ! k) d])))"
    using updateNote_found by blast
  then show ?thesis
    using only_entry_written [of w2 _ w NOTES_KEY] by simp
qed

lemma togglePinNote_same:
  assumes "same_entry NOTES_KEY v w"
  shows "fst (togglePinNote p now i v) = fst (togglePinNote p now i w)
       \<and> same_entry NOTES_KEY (snd (togglePinNote p now i v)) (snd (togglePinNote p now i w))"
proof -
  obtain r v1 w1 where g: "getNoteById p i v = (Inr r, v1)" "getNoteById p i w = (Inr r, w1)"
    and s: "same_entry NOTES_KEY v1 w1"
  proof -
    obtain v1 where v: "getNoteById p i v = (Inr (find (\<lambda>t. note_id t = i) (loaded_notes p v)), v1)"
      using getNoteById_eq by blast
    obtain w1 where w: "getNoteById p i w = (Inr (find (\<lambda>t. note_id t = i) (loaded_notes p w)), w1)"
      using getNoteById_eq by blast
    from getNoteById_same [OF assms, of p i] v w same_entry_loaded_notes [OF assms] that
    show ?thesis by simp
  qed
  show ?thesis
  proof (cases r)
    case None
    with g s show ?thesis by (simp add: togglePinNote_def)
  next
    case (Some t)
    with g updateNote_same [OF s] show ?thesis by (simp add: togglePinNote_def)
  qed
qed

lemma togglePinNote_frame: "only_entry NOTES_KEY w (snd (togglePinNote p now i w))"
proof -
  obtain r w1 where g: "getNoteById p i w = (Inr r, w1)"
    using getNoteById_eq by blast
  then have f: "only_entry NOTES_KEY w w1"
    using getNoteById_frame [of w p i] by simp
  show ?thesis
  proof (cases r)
    case None
    with g f show ?thesis by (simp add: togglePinNote_def)
  next
    case (Some t)
    have "only_entry NOTES_KEY w
        (snd (updateNote p now i (no_update_note\<lparr>un_isPinned := Present (\<not> note_isPinned t)\<rparr>) w1))"
      using f updateNote_frame by (rule only_entry_trans)
    with g Some show ?thesis by (simp add: togglePinNote_def)
  qed
qed

lemma clearAllNotes_same:
  assumes "same_entry NOTES_KEY v w"
  shows "fst (clearAllNotes v) = fst (clearAllNotes w)
       \<and> same_entry NOTES_KEY (snd (clearAllNotes v)) (snd (clearAllNotes w))"
  using assms same_entry_next [OF assms]
  by (simp add: clearAllNotes_def removeItem_eq same_entry_def)

lemma clearAllNotes_frame: "only_entry NOTES_KEY w (snd (clearAllNotes w))"
  by (simp add: clearAllNotes_def removeItem_eq only_entry_def)


lemma getTodosStats_same:
  assumes "same_entry TODOS_KEY v w"
  shows "fst (getTodosStats v) = fst (getTodosStats w)
       \<and> same_entry TODOS_KEY (snd (getTodosStats v)) (snd (getTodosStats w))"
proof -
  obtain r v1 w1 where g: "getTodos v = (Inr r, v1)" "getTodos w = (Inr r, w1)"
    and s: "same_entry TODOS_KEY v1 w1"
  proof -
    obtain v1 where v: "getTodos v = (Inr (loaded_todos v), v1)"
      using getTodos_eq by blast
    obtain w1 where w: "getTodos w = (Inr (loaded_todos w), w1)"
      using getTodos_eq by blast
    from getTodos_same [OF assms] v w same_entry_loaded_todos [OF assms] that
    show ?thesis by simp
  qed
  then show ?thesis by (simp add: getTodosStats_def)
qed

lemma getTodosStats_frame: "only_entry TODOS_KEY w (snd (getTodosStats w))"
proof -
  obtain w1 where "getTodos w = (Inr (loaded_todos w), w1)"
    using getTodos_eq by blast
  with getTodos_frame [of w] show ?thesis by (simp add: getTodosStats_def)
qed

lemma noteService_same:
  assumes "same_entry NOTES_KEY v w"
  shows "fst (noteService p c v) = fst (noteService p c w)
       \<and> same_entry NOTES_KEY (snd (noteService p c v)) (snd (noteService p c w))"
proof (cases c)
  case GetNotes
  with getNotes_same [OF assms, of p] show ?thesis by simp
next
  case (GetNoteById i)
  with getNoteById_same [OF assms, of p i] show ?thesis by simp
next
  case (CreateNote ti tc tu d)
  with createNote_same [OF assms, of p ti tc tu d] show ?thesis by simp
next
  case (UpdateNote now i d)
  with updateNote_same [OF assms, of p now i d] show ?thesis by simp
next
  case (DeleteNote i)
  with deleteNote_same [OF assms, of p i] show ?thesis by simp
next
  case (TogglePinNote now i)
  with togglePinNote_same [OF assms, of p now i] show ?thesis by simp
next
  case ClearAllNotes
  with clearAllNotes_same [OF assms] show ?thesis by simp
qed

lemma noteService_frame: "only_entry NOTES_KEY w (snd (noteService p c w))"
  by (cases c)
     (simp_all add: getNotes_frame getNoteById_frame createNote_frame updateNote_frame
        deleteNote_frame togglePinNote_frame clearAllNotes_frame)

lemma todoService_same:
  assumes "same_entry TODOS_KEY v w"
  shows "fst (todoService c v) = fst (todoService c w)
       \<and> same_entry TODOS_KEY (snd (todoService c v)) (snd (todoService c w))"
proof (cases c)
  case GetTodos
  with getTodos_same [OF assms] show ?thesis by simp
next
  case (GetTodoById i)
  with getTodoById_same [OF assms, of i] show ?thesis by simp
next
  case (CreateTodo ti tc tu d)
  with createTodo_same [OF assms, of ti tc tu d] show ?thesis by simp
next
  case (UpdateTodo now i d)
  with updateTodo_same [OF assms, of now i d] show ?thesis by simp
next
  case (DeleteTodo i)
  with deleteTodo_same [OF assms, of i] show ?thesis by simp
next
  case (ToggleTodo now i)
  with toggleTodo_same [OF assms, of now i] show ?thesis by simp
next
  case ClearAllTodos
  with clearAllTodos_same [OF assms] show ?thesis by simp
next
  case GetTodosStats
  with getTodosStats_same [OF assms] show ?thesis by simp
qed

lemma todoService_frame: "only_entry TODOS_KEY w (snd (todoService c w))"
  by (cases c)
     (simp_all add: getTodos_frame getTodoById_frame createTodo_frame updateTodo_frame
        deleteTodo_frame toggleTodo_frame clearAllTodos_frame getTodosStats_frame)

lemma keys_differ: "TODOS_KEY \<noteq> NOTES_KEY"
  by (simp add: TODOS_KEY_def NOTES_KEY_def)

section \<open>Evaluating the examples\<close>

lemmas service_eval = getTodos_def getTodos_try_def getNotes_def getNotes_try_def getItem_def
  setItem_def removeItem_def next_fault_def saveTodos_def saveNotes_def console_error_def
  createTodo_def createNote_def updateTodo_def updateNote_def deleteTodo_def deleteNote_def
  getTodoById_def getNoteById_def toggleTodo_def togglePinNote_def getTodosStats_def
  newTodo_def newNote_def updatedTodo_def updatedNote_def no_update_todo_def no_update_note_def
  Array_sort_def compareNotes_def sort_order_def

lemmas example_eval = home_world_def todo_only_world_def corrupt_world_def todo_milk_def
  todo_rent_def note_jan1_def note_jan2_def note_pinned_def engine_parse_def
  buy_milk_def milk_created_def jot_def rename_rent_def pin_it_def
  TODOS_KEY_def NOTES_KEY_def stored_todos_def stored_notes_def
  next_call_fails_def storage_ok_def

section \<open>The claims\<close>

text \<open>
  C1, as the code has it. When the storage read is not rejected, \<open>getNotes\<close> returns a
  permutation of the stored collection in which the pinned notes come before the others
  and, among notes pinned alike, a note never comes before one updated later. (The order
  is that of the parsed \<open>updatedAt\<close>, which every record the services write has.)
\<close>

theorem getNotes_pinned_then_newest:
  assumes "\<not> next_call_fails w"
  shows "\<exists>notes w1. getNotes parse w = (Inr notes, w1)
           \<and> mset notes = mset (stored_notes w)
           \<and> (valid_dates parse (stored_notes w) \<longrightarrow>
                pinned_first notes \<and> newest_first parse notes)"
proof -
  let ?notes = "Array_sort (compareNotes parse) (stored_notes w)"
  obtain w1 where "getNotes parse w = (Inr ?notes, w1)"
    using getNotes_eq [of parse w] assms by (auto simp: loaded_notes_def)
  moreover have "mset ?notes = mset (stored_notes w)"
    by (rule mset_Array_sort)
  moreover have "pinned_first ?notes" if "valid_dates parse (stored_notes w)"
    using that by (rule Array_sort_pinned_first)
  moreover have "newest_first parse ?notes" if "valid_dates parse (stored_notes w)"
    using that by (rule Array_sort_newest_first)
  ultimately show ?thesis by blast
qed

theorem getNotes_pinned_then_newest_witness:
  "\<not> next_call_fails home_world
   \<and> valid_dates engine_parse (stored_notes home_world)
   \<and> fst (getNotes engine_parse home_world) = Inr [note_pinned, note_jan2, note_jan1]
   \<and> (\<exists>notes w1. getNotes engine_parse home_world = (Inr notes, w1)
         \<and> mset notes = mset (stored_notes home_world)
         \<and> pinned_first notes
         \<and> newest_first engine_parse notes)"
proof -
  have ok: "\<not> next_call_fails home_world"
    by (simp add: example_eval next_fault_def)
  have v: "valid_dates engine_parse (stored_notes home_world)"
    by (simp add: example_eval valid_dates_def)
  have "fst (getNotes engine_parse home_world) = Inr [note_pinned, note_jan2, note_jan1]"
    by (simp add: service_eval example_eval)
  then show ?thesis
    using ok v getNotes_pinned_then_newest [OF ok, of engine_parse] by blast
qed

text \<open>
  C1 as stated, for every stored collection, fails: when the storage read is rejected
  the \<^verbatim>\<open>catch\<close> of \<open>getNotes\<close> returns the empty list, which is not a permutation of
  the three stored notes.
\<close>

theorem getNotes_rejected_read_not_permutation:
  "stored_notes (home_world\<lparr>faults := [True]\<rparr>) = [note_pinned, note_jan1, note_jan2]
   \<and> fst (getNotes engine_parse (home_world\<lparr>faults := [True]\<rparr>)) = Inr []
   \<and> mset ([] :: Note list) \<noteq> mset [note_pinned, note_jan1, note_jan2]"
  by (simp add: service_eval example_eval)

text \<open>
  C2, as the code has it. When neither the read nor the write of the collection is
  rejected, an update of an existing record (\<open>updateTodo\<close> or \<open>updateNote\<close> with an
  id that is in the stored collection) returns a record that has taken the place of the
  old one in the collection written back; its \<open>updatedAt\<close> is the ISO timestamp of
  the clock reading, its id and \<open>createdAt\<close> are those of the old record, and so is
  every property that the dto does not have.
\<close>

theorem update_sets_updatedAt_only:
  assumes "\<not> next_call_fails w" and "\<not> second_call_fails w"
  shows "(i \<in> todo_id ` set (stored_todos w) \<longrightarrow>
          (\<exists>old t w1 k. updateTodo now i d w = (Inr (Some t), w1)
            \<and> k < length (stored_todos w) \<and> stored_todos w ! k = old
            \<and> stored_todos w1 = (stored_todos w)[k := t]
            \<and> old \<in> set (stored_todos w) \<and> t \<in> set (stored_todos w1)
            \<and> todo_id old = i \<and> todo_id t = i
            \<and> todo_createdAt t = todo_createdAt old
            \<and> todo_updatedAt t = toISOString now \<and> iso_format (todo_updatedAt t)
            \<and> (ut_title d = Absent \<longrightarrow> todo_title t = todo_title old)
            \<and> (ut_description d = Absent \<longrightarrow> todo_description t = todo_description old)
            \<and> (ut_priority d = Absent \<longrightarrow> todo_priority t = todo_priority old)
            \<and> (ut_dueDate d = Absent \<longrightarrow> todo_dueDate t = todo_dueDate old)
            \<and> (ut_completed d = Absent \<longrightarrow> todo_completed t = todo_completed old)))
       \<and> (j \<in> note_id ` set (stored_notes w) \<longrightarrow>
          (\<exists>old n w1. updateNote p now j e w = (Inr (Some n), w1)
            \<and> old \<in> set (stored_notes w) \<and> n \<in> set (stored_notes w1)
            \<and> mset (stored_notes w1) = add_mset n (mset (stored_notes w) - {#old#})
            \<and> note_id old = j \<and> note_id n = j
            \<and> note_createdAt n = note_createdAt old
            \<and> note_updatedAt n = toISOString now \<and> iso_format (note_updatedAt n)
            \<and> (un_title e = Absent \<longrightarrow> note_title n = note_title old)
            \<and> (un_content e = Absent \<longrightarrow> note_content n = note_content old)
            \<and> (un_category e = Absent \<longrightarrow> note_category n = note_category old)
            \<and> (un_tags e = Absent \<longrightarrow> note_tags n = note_tags old)
            \<and> (un_isPinned e = Absent \<longrightarrow> note_isPinned n = note_isPinned old)))"
proof (intro conjI impI)
  assume i: "i \<in> todo_id ` set (stored_todos w)"
  let ?xs = "loaded_todos w"
  have xs: "?xs = stored_todos w"
    using assms(1) by (rule loaded_todos_read)
  have "\<exists>x \<in> set ?xs. todo_id x = i"
    using i unfolding xs by auto
  then obtain k where k: "findIndex (\<lambda>t. todo_id t = i) ?xs = Some k" "k < length ?xs"
    "todo_id (?xs ! k) = i"
    by (rule findIndex_present)
  let ?old = "?xs ! k" and ?t = "updatedTodo now (?xs ! k) d"
  obtain w1 where r: "updateTodo now i d w = (Inr (Some ?t), w1)"
    "items w1 = (items w)(TODOS_KEY \<mapsto> Todos_json (?xs[k := ?t]))"
    using updateTodo_found [OF k(1), of now d] assms(2) by auto
  have s: "stored_todos w1 = ?xs[k := ?t]"
    using r(2) by (rule stored_todos_written)
  then have "?t \<in> set (stored_todos w1)"
    using k(2) by (simp add: set_update_memI)
  moreover have "?old \<in> set (stored_todos w)"
    using k(2) unfolding xs by simp
  moreover have "k < length (stored_todos w)" "stored_todos w ! k = ?old"
    "stored_todos w1 = (stored_todos w)[k := ?t]"
    using k(2) s unfolding xs by simp_all
  ultimately show "\<exists>old t w1 k. updateTodo now i d w = (Inr (Some t), w1)
            \<and> k < length (stored_todos w) \<and> stored_todos w ! k = old
            \<and> stored_todos w1 = (stored_todos w)[k := t]
            \<and> old \<in> set (stored_todos w) \<and> t \<in> set (stored_todos w1)
            \<and> todo_id old = i \<and> todo_id t = i
            \<and> todo_createdAt t = todo_createdAt old
            \<and> todo_updatedAt t = toISOString now \<and> iso_format (todo_updatedAt t)
            \<and> (ut_title d = Absent \<longrightarrow> todo_title t = todo_title old)
            \<and> (ut_description d = Absent \<longrightarrow> todo_description t = todo_description old)
            \<and> (ut_priority d = Absent \<longrightarrow> todo_priority t = todo_priority old)
            \<and> (ut_dueDate d = Absent \<longrightarrow> todo_dueDate t = todo_dueDate old)
            \<and> (ut_completed d = Absent \<longrightarrow> todo_completed t = todo_completed old)"
    using r(1) k(3)
    by (intro exI [of _ ?old] exI [of _ ?t] exI [of _ w1] exI [of _ k])
       (simp add: updatedTodo_def iso_format_toISOString)
next
  assume j: "j \<in> note_id ` set (stored_notes w)"
  let ?xs = "loaded_notes p w"
  have l: "?xs = Array_sort (compareNotes p) (stored_notes w)"
    using assms(1) by (rule loaded_notes_read)
  have xs: "set ?xs = set (stored_notes w)"
    unfolding l by (rule set_Array_sort)
  have ms: "mset ?xs = mset (stored_notes w)"
    unfolding l by (rule mset_Array_sort)
  have "\<exists>x \<in> set ?xs. note_id x = j"
    using j unfolding xs by auto
  then obtain k where k: "findIndex (\<lambda>n. note_id n = j) ?xs = Some k" "k < length ?xs"
    "note_id (?xs ! k) = j"
    by (rule findIndex_present)
  let ?old = "?xs ! k" and ?n = "updatedNote now (?xs ! k) e"
  obtain w1 where r: "updateNote p now j e w = (Inr (Some ?n), w1)"
    "items w1 = (items w)(NOTES_KEY \<mapsto> Notes_json (?xs[k := ?n]))"
    using updateNote_found [OF k(1), of now e] assms(2) by auto
  have s: "stored_notes w1 = ?xs[k := ?n]"
    using r(2) by (rule stored_notes_written)
  then have "?n \<in> set (stored_notes w1)"
    using k(2) by (simp add: set_update_memI)
  moreover have "?old \<in> set (stored_notes w)"
    using k(2) nth_mem [of k ?xs] unfolding xs by simp
  moreover have "mset (stored_notes w1) = add_mset ?n (mset (stored_notes w) - {#?old#})"
    unfolding s using mset_update [OF k(2), of ?n] ms by simp
  ultimately show "\<exists>old n w1. updateNote p now j e w = (Inr (Some n), w1)
            \<and> old \<in> set (stored_notes w) \<and> n \<in> set (stored_notes w1)
            \<and> mset (stored_notes w1) = add_mset n (mset (stored_notes w) - {#old#})
            \<and> note_id old = j \<and> note_id n = j
            \<and> note_createdAt n = note_createdAt old
            \<and> note_updatedAt n = toISOString now \<and> iso_format (note_updatedAt n)
            \<and> (un_title e = Absent \<longrightarrow> note_title n = note_title old)
            \<and> (un_content e = Absent \<longrightarrow> note_content n = note_content old)
            \<and> (un_category e = Absent \<longrightarrow> note_category n = note_category old)
            \<and> (un_tags e = Absent \<longrightarrow> note_tags n = note_tags old)
            \<and> (un_isPinned e = Absent \<longrightarrow> note_isPinned n = note_isPinned old)"
    using r(1) k(3)
    by (intro exI [of _ ?old] exI [of _ ?n] exI [of _ w1])
       (simp add: updatedNote_def iso_format_toISOString)
qed

theorem update_sets_updatedAt_only_witness:
  "\<not> next_call_fails home_world \<and> \<not> second_call_fails home_world
   \<and> \<not> next_call_fails todo_only_world \<and> \<not> second_call_fails todo_only_world
   \<and> ''1700000060000'' \<in> todo_id ` set (stored_todos home_world)
   \<and> ''1704067200000'' \<in> note_id ` set (stored_notes home_world)
   \<and> ''1700000060000'' \<in> todo_id ` set (stored_todos todo_only_world)
   \<and> stored_notes todo_only_world = []
   \<and> ut_description rename_rent = Absent \<and> un_title pin_it = Absent
   \<and> (\<exists>old t w1.
         updateTodo 1700000000001 ''1700000060000'' rename_rent home_world = (Inr (Some t), w1)
         \<and> old \<in> set (stored_todos home_world) \<and> t \<in> set (stored_todos w1)
         \<and> todo_createdAt t = todo_createdAt old
         \<and> todo_updatedAt t = toISOString 1700000000001
         \<and> todo_description t = todo_description old)
   \<and> (\<exists>old n w1.
         updateNote engine_parse 1700000000001 ''1704067200000'' pin_it home_world
           = (Inr (Some n), w1)
         \<and> old \<in> set (stored_notes home_world) \<and> n \<in> set (stored_notes w1)
         \<and> note_createdAt n = note_createdAt old
         \<and> note_title n = note_title old)
   \<and> (\<exists>old t w1.
         updateTodo 1700000000001 ''1700000060000'' rename_rent todo_only_world
           = (Inr (Some t), w1)
         \<and> old \<in> set (stored_todos todo_only_world) \<and> t \<in> set (stored_todos w1)
         \<and> todo_updatedAt t = toISOString 1700000000001
         \<and> todo_description t = todo_description old)"
proof -
  have ok: "\<not> next_call_fails home_world" "\<not> second_call_fails home_world"
    by (simp_all add: example_eval second_call_fails_def next_fault_def)
  have ok': "\<not> next_call_fails todo_only_world" "\<not> second_call_fails todo_only_world"
    by (simp_all add: example_eval second_call_fails_def next_fault_def)
  have i: "''1700000060000'' \<in> todo_id ` set (stored_todos home_world)"
    by (simp add: example_eval)
  have j: "''1704067200000'' \<in> note_id ` set (stored_notes home_world)"
    by (simp add: example_eval)
  have i': "''1700000060000'' \<in> todo_id ` set (stored_todos todo_only_world)"
    "stored_notes todo_only_world = []"
    by (simp_all add: example_eval)
  have d: "ut_description rename_rent = Absent" "un_title pin_it = Absent"
    by (simp_all add: example_eval no_update_todo_def no_update_note_def)
  note home = update_sets_updatedAt_only [OF ok, where i = "''1700000060000''"
        and j = "''1704067200000''" and now = 1700000000001 and d = rename_rent
        and p = engine_parse and e = pin_it]
  note only = update_sets_updatedAt_only [OF ok', where i = "''1700000060000''"
        and j = "''1704067200000''" and now = 1700000000001 and d = rename_rent
        and p = engine_parse and e = pin_it]
  have a: "\<exists>old t w1.
         updateTodo 1700000000001 ''1700000060000'' rename_rent home_world = (Inr (Some t), w1)
         \<and> old \<in> set (stored_todos home_world) \<and> t \<in> set (stored_todos w1)
         \<and> todo_createdAt t = todo_createdAt old
         \<and> todo_updatedAt t = toISOString 1700000000001
         \<and> todo_description t = todo_description old"
    using home [THEN conjunct1, THEN mp, OF i] d(1) by blast
  have b: "\<exists>old n w1.
         updateNote engine_parse 1700000000001 ''1704067200000'' pin_it home_world
           = (Inr (Some n), w1)
         \<and> old \<in> set (stored_notes home_world) \<and> n \<in> set (stored_notes w1)
         \<and> note_createdAt n = note_createdAt old
         \<and> note_title n = note_title old"
    using home [THEN conjunct2, THEN mp, OF j] d(2) by blast
  have c: "\<exists>old t w1.
         updateTodo 1700000000001 ''1700000060000'' rename_rent todo_only_world
           = (Inr (Some t), w1)
         \<and> old \<in> set (stored_todos todo_only_world) \<and> t \<in> set (stored_todos w1)
         \<and> todo_updatedAt t = toISOString 1700000000001
         \<and> todo_description t = todo_description old"
    using only [THEN conjunct1, THEN mp, OF i'(1)] d(1) by blast
  show ?thesis
    by (intro conjI ok ok' i j i' d a b c)
qed

text \<open>
  C2 as stated, for every update of an existing record, fails: when the storage read is
  rejected \<open>getTodos\<close> returns the empty list, so \<open>updateTodo\<close> with a stored id
  throws \<open>Todo not found\<close> and the stored record keeps its old \<open>updatedAt\<close>.
\<close>

theorem update_rejected_read_throws:
  "''1700000060000'' \<in> todo_id ` set (stored_todos (home_world\<lparr>faults := [True]\<rparr>))
   \<and> fst (updateTodo 1700000000001 ''1700000060000'' rename_rent (home_world\<lparr>faults := [True]\<rparr>))
       = Inl (Error ''Todo not found'')
   \<and> stored_todos (snd (updateTodo 1700000000001 ''1700000060000'' rename_rent
                          (home_world\<lparr>faults := [True]\<rparr>)))
       = [todo_milk, todo_rent]"
  by (simp add: service_eval example_eval)

text \<open>
  C3. The id of a created record is the decimal string of the clock reading taken for
  it (\<^verbatim>\<open>Date.now()\<close>). Two creations for which the clock gives the same reading get
  the same id, and both records are stored: the ids of the stored collection are not
  distinct.
\<close>

theorem create_id_from_clock:
  assumes "storage_ok w"
  shows "(\<exists>x w1 y w2. createTodo t c u d w = (Inr x, w1)
            \<and> createTodo t c' u' d' w1 = (Inr y, w2)
            \<and> todo_id x = Number_toString t \<and> todo_id y = Number_toString t
            \<and> stored_todos w2 = stored_todos w @ [x, y]
            \<and> \<not> distinct (map todo_id (stored_todos w2)))
       \<and> (\<exists>x w1 y w2. createNote p t c u e w = (Inr x, w1)
            \<and> createNote p t c' u' e' w1 = (Inr y, w2)
            \<and> note_id x = Number_toString t \<and> note_id y = Number_toString t
            \<and> x \<in> set (stored_notes w2) \<and> last (stored_notes w2) = y
            \<and> length (stored_notes w2) = length (stored_notes w) + 2
            \<and> \<not> distinct (map note_id (stored_notes w2)))"
proof (rule conjI)
  let ?x = "newTodo t c u d" and ?y = "newTodo t c' u' d'"
  obtain w1 where 1: "createTodo t c u d w = (Inr ?x, w1)"
    "items w1 = (items w)(TODOS_KEY \<mapsto> Todos_json (stored_todos w @ [?x]))"
    "faults w1 = tl (tl (faults w))"
    using createTodo_eq [of t c u d w] storage_ok_second [OF assms] loaded_todos_ok [OF assms]
    by auto
  have ok1: "storage_ok w1"
    using assms 1(3) by (rule storage_ok_tl2)
  have s1: "stored_todos w1 = stored_todos w @ [?x]"
    using 1(2) by (rule stored_todos_written)
  obtain w2 where 2: "createTodo t c' u' d' w1 = (Inr ?y, w2)"
    "items w2 = (items w1)(TODOS_KEY \<mapsto> Todos_json (stored_todos w1 @ [?y]))"
    using createTodo_eq [of t c' u' d' w1] storage_ok_second [OF ok1] loaded_todos_ok [OF ok1]
    by auto
  have s2: "stored_todos w2 = stored_todos w @ [?x, ?y]"
    using stored_todos_written [OF 2(2)] s1 by simp
  have "todo_id ?x = Number_toString t" "todo_id ?y = Number_toString t"
    by (simp_all add: newTodo_def)
  then show "\<exists>x w1 y w2. createTodo t c u d w = (Inr x, w1)
            \<and> createTodo t c' u' d' w1 = (Inr y, w2)
            \<and> todo_id x = Number_toString t \<and> todo_id y = Number_toString t
            \<and> stored_todos w2 = stored_todos w @ [x, y]
            \<and> \<not> distinct (map todo_id (stored_todos w2))"
    using 1(1) 2(1) s2
    by (intro exI [of _ ?x] exI [of _ w1] exI [of _ ?y] exI [of _ w2]) simp
next
  let ?x = "newNote t c u e" and ?y = "newNote t c' u' e'"
  let ?sort = "Array_sort (compareNotes p)"
  obtain w1 where 1: "createNote p t c u e w = (Inr ?x, w1)"
    "items w1 = (items w)(NOTES_KEY \<mapsto> Notes_json (?sort (stored_notes w) @ [?x]))"
    "faults w1 = tl (tl (faults w))"
    using createNote_eq [of p t c u e w] storage_ok_second [OF assms] loaded_notes_ok [OF assms]
    by auto
  have ok1: "storage_ok w1"
    using assms 1(3) by (rule storage_ok_tl2)
  have s1: "stored_notes w1 = ?sort (stored_notes w) @ [?x]"
    using 1(2) by (rule stored_notes_written)
  obtain w2 where 2: "createNote p t c' u' e' w1 = (Inr ?y, w2)"
    "items w2 = (items w1)(NOTES_KEY \<mapsto> Notes_json (?sort (stored_notes w1) @ [?y]))"
    using createNote_eq [of p t c' u' e' w1] storage_ok_second [OF ok1] loaded_notes_ok [OF ok1]
    by auto
  have s2: "stored_notes w2 = ?sort (?sort (stored_notes w) @ [?x]) @ [?y]"
    using stored_notes_written [OF 2(2)] s1 by simp
  have ids: "note_id ?x = Number_toString t" "note_id ?y = Number_toString t"
    by (simp_all add: newNote_def)
  have x: "?x \<in> set (stored_notes w2)"
    unfolding s2 by (simp add: set_Array_sort)
  have len: "length (stored_notes w2) = length (stored_notes w) + 2"
    unfolding s2 using mset_Array_sort [of "compareNotes p"]
    by (metis (no_types, lifting) One_nat_def Suc_1 add_Suc_right length_append_singleton
        size_mset add.right_neutral)
  have "Number_toString t \<in> note_id ` set (?sort (?sort (stored_notes w) @ [?x]))"
    using ids(1) by (simp add: set_Array_sort)
  then have "\<not> distinct (map note_id (stored_notes w2))"
    unfolding s2 using ids(2) by simp
  with ids x len show "\<exists>x w1 y w2. createNote p t c u e w = (Inr x, w1)
            \<and> createNote p t c' u' e' w1 = (Inr y, w2)
            \<and> note_id x = Number_toString t \<and> note_id y = Number_toString t
            \<and> x \<in> set (stored_notes w2) \<and> last (stored_notes w2) = y
            \<and> length (stored_notes w2) = length (stored_notes w) + 2
            \<and> \<not> distinct (map note_id (stored_notes w2))"
    using 1(1) 2(1) s2
    by (intro exI [of _ ?x] exI [of _ w1] exI [of _ ?y] exI [of _ w2]) simp
qed


theorem create_id_from_clock_witness:
  "storage_ok home_world
   \<and> Number_toString 1700000000000 = ''1700000000000''
   \<and> (\<exists>x w1 y w2.
         createTodo 1700000000000 1700000000000 1700000000001 buy_milk home_world = (Inr x, w1)
         \<and> createTodo 1700000000000 1700000000000 1700000000000 buy_milk w1 = (Inr y, w2)
         \<and> todo_id x = ''1700000000000'' \<and> todo_id y = ''1700000000000''
         \<and> \<not> distinct (map todo_id (stored_todos w2)))
   \<and> (\<exists>x w1 y w2.
         createNote engine_parse 1700000000000 1700000000000 1700000000001 jot home_world
           = (Inr x, w1)
         \<and> createNote engine_parse 1700000000000 1700000000000 1700000000000 jot w1 = (Inr y, w2)
         \<and> note_id x = ''1700000000000'' \<and> note_id y = ''1700000000000''
         \<and> \<not> distinct (map note_id (stored_notes w2)))"
proof -
  have ok: "storage_ok home_world"
    by (simp add: example_eval)
  have n: "Number_toString 1700000000000 = ''1700000000000''"
    by (simp add: date_eval)
  show ?thesis
    using ok n
      create_id_from_clock [OF ok, of 1700000000000 1700000000000 1700000000001 buy_milk
        1700000000000 1700000000000 buy_milk engine_parse jot jot]
    by (simp only: n) blast
qed




text \<open>
  C6, as the code has it. \<open>createTodo\<close> (the storage working) returns a todo with the id
  of the clock reading, the title, description and due date of the dto, \<open>completed\<close>
  false, the priority of the dto or \<open>medium\<close> when the dto has none (one of low, medium,
  high), and \<open>createdAt\<close> and \<open>updatedAt\<close> the ISO timestamps of two successive clock
  readings; the two are equal when the two readings are.
\<close>

theorem createTodo_fields:
  assumes "storage_ok w"
  shows "\<exists>x w1. createTodo now_id now_created now_updated d w = (Inr x, w1)
           \<and> todo_id x = Number_toString now_id
           \<and> todo_title x = ct_title d
           \<and> todo_description x = ct_description d
           \<and> todo_dueDate x = ct_dueDate d
           \<and> todo_completed x = False
           \<and> todo_priority x = (case ct_priority d of None \<Rightarrow> Medium | Some p \<Rightarrow> p)
           \<and> todo_priority x \<in> {Low, Medium, High}
           \<and> todo_createdAt x = toISOString now_created
           \<and> todo_updatedAt x = toISOString now_updated
           \<and> (now_created = now_updated \<longrightarrow> todo_createdAt x = todo_updatedAt x)"
proof -
  obtain w1 where "createTodo now_id now_created now_updated d w =
      (Inr (newTodo now_id now_created now_updated d), w1)"
    using createTodo_eq [of now_id now_created now_updated d w] storage_ok_second [OF assms]
    by auto
  moreover have "todo_priority (newTodo now_id now_created now_updated d) \<in> {Low, Medium, High}"
    by (cases "todo_priority (newTodo now_id now_created now_updated d)") simp_all
  ultimately show ?thesis
    by (simp add: newTodo_def)
qed


theorem createTodo_fields_witness:
  "storage_ok home_world
   \<and> (\<exists>x w1. createTodo 1700000000000 1700000000000 1700000000000 buy_milk home_world
                = (Inr x, w1)
         \<and> todo_completed x = False \<and> todo_priority x = Medium
         \<and> todo_createdAt x = todo_updatedAt x)"
proof -
  have ok: "storage_ok home_world"
    by (simp add: example_eval)
  have p: "ct_priority buy_milk = None"
    by (simp add: example_eval)
  show ?thesis
    using ok createTodo_fields [OF ok, of 1700000000000 1700000000000 1700000000000 buy_milk]
    by (simp only: p option.case) blast
qed

text \<open>
  C6 as stated fails: when the clock moves on between the two \<^verbatim>\<open>new Date()\<close> calls,
  \<open>createdAt\<close> and \<open>updatedAt\<close> of the created todo differ.
\<close>

theorem createTodo_timestamps_differ:
  "fst (createTodo 1700000000000 1700000000000 1700000000001 buy_milk home_world)
     = Inr milk_created
   \<and> todo_createdAt milk_created \<noteq> todo_updatedAt milk_created"
  by (simp add: service_eval example_eval date_eval)

text \<open>
  C5. When the storage read is rejected, or the stored text does not parse, the body of
  \<open>getTodos\<close> and of \<open>getNotes\<close> raises; the function returns the empty list all the
  same, leaves the stored entries as they are and writes one line to the console.
\<close>

theorem failed_read_gives_empty_list:
  assumes "next_call_fails w \<or> items w TODOS_KEY = Some Malformed"
    and "next_call_fails v \<or> items v NOTES_KEY = Some Malformed"
  shows "isl (fst (getTodos_try w))
       \<and> fst (getTodos w) = Inr []
       \<and> items (snd (getTodos w)) = items w
       \<and> console (snd (getTodos w)) = console w @ [''Error loading todos:'']
       \<and> isl (fst (getNotes_try p v))
       \<and> fst (getNotes p v) = Inr []
       \<and> items (snd (getNotes p v)) = items v
       \<and> console (snd (getNotes p v)) = console v @ [''Error loading notes:'']"
proof -
  have "isl (fst (getTodos_try w))"
    using assms(1) unfolding getTodos_try_fails by blast
  moreover have "getTodos w = (Inr [], console_error ''Error loading todos:'' (w\<lparr>faults := tl (faults w)\<rparr>))"
    using assms(1)
    by (auto simp: getTodos_def getTodos_try_def getItem_eq split: option.splits stored_text.splits)
  moreover have "isl (fst (getNotes_try p v))"
    using assms(2) unfolding getNotes_try_fails by blast
  moreover have "getNotes p v = (Inr [], console_error ''Error loading notes:'' (v\<lparr>faults := tl (faults v)\<rparr>))"
    using assms(2)
    by (auto simp: getNotes_def getNotes_try_def getItem_eq split: option.splits stored_text.splits)
  ultimately show ?thesis
    by (simp add: console_error_def)
qed


theorem failed_read_gives_empty_list_witness:
  "(next_call_fails (home_world\<lparr>faults := [True]\<rparr>)
      \<or> items (home_world\<lparr>faults := [True]\<rparr>) TODOS_KEY = Some Malformed)
   \<and> (next_call_fails corrupt_world \<or> items corrupt_world NOTES_KEY = Some Malformed)
   \<and> fst (getTodos (home_world\<lparr>faults := [True]\<rparr>)) = Inr []
   \<and> stored_todos (snd (getTodos (home_world\<lparr>faults := [True]\<rparr>))) = [todo_milk, todo_rent]
   \<and> fst (getNotes engine_parse corrupt_world) = Inr []
   \<and> console (snd (getNotes engine_parse corrupt_world)) = [''Error loading notes:'']"
proof -
  have w: "next_call_fails (home_world\<lparr>faults := [True]\<rparr>)
      \<or> items (home_world\<lparr>faults := [True]\<rparr>) TODOS_KEY = Some Malformed"
    by (simp add: example_eval next_fault_def)
  have v: "next_call_fails corrupt_world \<or> items corrupt_world NOTES_KEY = Some Malformed"
    by (simp add: example_eval)
  have s: "stored_todos (home_world\<lparr>faults := [True]\<rparr>) = [todo_milk, todo_rent]"
    "console corrupt_world = []"
    by (simp_all add: example_eval)
  have "stored_todos (snd (getTodos (home_world\<lparr>faults := [True]\<rparr>))) = [todo_milk, todo_rent]"
    using failed_read_gives_empty_list [OF w v, of engine_parse] s(1)
    by (simp add: stored_todos_def)
  then show ?thesis
    using w v s(2) failed_read_gives_empty_list [OF w v, of engine_parse]
    by simp
qed

text \<open>
  C7. Every operation of \<open>noteService\<close> leaves every entry but the one under
  \<open>@notes\<close> as it is, so the stored todos are unchanged, and its reply and the new
  \<open>@notes\<close> entry are the same in two worlds that agree on the \<open>@notes\<close> entry (and
  on the coming storage outcomes). The same holds for \<open>todoService\<close> and \<open>@todos\<close>.
\<close>

theorem services_use_own_entry_only:
  "only_entry NOTES_KEY w (snd (noteService p c w))
   \<and> stored_todos (snd (noteService p c w)) = stored_todos w
   \<and> (same_entry NOTES_KEY v w \<longrightarrow>
        fst (noteService p c v) = fst (noteService p c w)
        \<and> same_entry NOTES_KEY (snd (noteService p c v)) (snd (noteService p c w)))
   \<and> only_entry TODOS_KEY w (snd (todoService d w))
   \<and> stored_notes (snd (todoService d w)) = stored_notes w
   \<and> (same_entry TODOS_KEY v w \<longrightarrow>
        fst (todoService d v) = fst (todoService d w)
        \<and> same_entry TODOS_KEY (snd (todoService d v)) (snd (todoService d w)))"
proof -
  have n: "only_entry NOTES_KEY w (snd (noteService p c w))"
    by (rule noteService_frame)
  have t: "only_entry TODOS_KEY w (snd (todoService d w))"
    by (rule todoService_frame)
  have "items (snd (noteService p c w)) TODOS_KEY = items w TODOS_KEY"
    using n keys_differ by (simp add: only_entry_def)
  then have 1: "stored_todos (snd (noteService p c w)) = stored_todos w"
    by (rule stored_todos_items)
  have "items (snd (todoService d w)) NOTES_KEY = items w NOTES_KEY"
    using t keys_differ by (simp add: only_entry_def)
  then have 2: "stored_notes (snd (todoService d w)) = stored_notes w"
    by (rule stored_notes_items)
  show ?thesis
    using n t 1 2 noteService_same [of v w p c] todoService_same [of v w d] by blast
qed

theorem services_use_own_entry_only_witness:
  "same_entry NOTES_KEY corrupt_world (corrupt_world\<lparr>items := [NOTES_KEY \<mapsto> Malformed]\<rparr>)
   \<and> same_entry TODOS_KEY home_world (home_world\<lparr>console := [''x'']\<rparr>)
   \<and> stored_todos (snd (noteService engine_parse (DeleteNote ''1703980800000'') home_world))
       = stored_todos home_world
   \<and> stored_todos home_world = [todo_milk, todo_rent]
   \<and> stored_notes (snd (todoService ClearAllTodos home_world)) = stored_notes home_world
   \<and> stored_notes home_world = [note_pinned, note_jan1, note_jan2]
   \<and> fst (noteService engine_parse GetNotes corrupt_world)
       = fst (noteService engine_parse GetNotes (corrupt_world\<lparr>items := [NOTES_KEY \<mapsto> Malformed]\<rparr>))
   \<and> fst (todoService (DeleteTodo ''1700000000000'') home_world)
       = fst (todoService (DeleteTodo ''1700000000000'') (home_world\<lparr>console := [''x'']\<rparr>))"
proof -
  have a: "same_entry NOTES_KEY corrupt_world (corrupt_world\<lparr>items := [NOTES_KEY \<mapsto> Malformed]\<rparr>)"
    by (simp add: same_entry_def example_eval)
  have b: "same_entry TODOS_KEY home_world (home_world\<lparr>console := [''x'']\<rparr>)"
    by (simp add: same_entry_def example_eval)
  have s: "stored_todos home_world = [todo_milk, todo_rent]"
    "stored_notes home_world = [note_pinned, note_jan1, note_jan2]"
    by (simp_all add: example_eval)
  show ?thesis
    using a b s
      services_use_own_entry_only [of home_world engine_parse "DeleteNote ''1703980800000''"
        home_world ClearAllTodos]
      services_use_own_entry_only [of "corrupt_world\<lparr>items := [NOTES_KEY \<mapsto> Malformed]\<rparr>"
        engine_parse GetNotes corrupt_world "DeleteTodo ''1700000000000''"]
      services_use_own_entry_only [of "home_world\<lparr>console := [''x'']\<rparr>"
        engine_parse GetNotes home_world "DeleteTodo ''1700000000000''"]
    by blast
qed

text \<open>
  C8. For an id that is not in the stored collection, \<open>updateTodo\<close> and \<open>updateNote\<close>
  throw (\<open>Todo not found\<close>, \<open>Note not found\<close>) and do not return \<open>null\<close>, and the
  stored entries are unchanged; \<open>toggleTodo\<close> and \<open>togglePinNote\<close> return \<open>null\<close>
  without throwing. This holds whatever the storage calls do.
\<close>

theorem update_missing_id_throws:
  assumes "i \<notin> todo_id ` set (stored_todos w)" and "j \<notin> note_id ` set (stored_notes w)"
  shows "fst (updateTodo now i d w) = Inl (Error ''Todo not found'')
       \<and> items (snd (updateTodo now i d w)) = items w
       \<and> fst (updateNote p now j e w) = Inl (Error ''Note not found'')
       \<and> items (snd (updateNote p now j e w)) = items w
       \<and> fst (toggleTodo now i w) = Inr None
       \<and> items (snd (toggleTodo now i w)) = items w
       \<and> fst (togglePinNote p now j w) = Inr None
       \<and> items (snd (togglePinNote p now j w)) = items w"
proof -
  have t: "\<forall>x \<in> set (loaded_todos w). todo_id x \<noteq> i"
    using assms(1) set_loaded_todos [of w] by blast
  have n: "\<forall>x \<in> set (loaded_notes p w). note_id x \<noteq> j"
    using assms(2) set_loaded_notes [of p w] by blast
  have "findIndex (\<lambda>t. todo_id t = i) (loaded_todos w) = None"
    using t by (simp add: findIndex_None)
  then obtain w1 where 1: "updateTodo now i d w = (Inl (Error ''Todo not found''), w1)"
    "items w1 = items w"
    using updateTodo_missing by blast
  have "findIndex (\<lambda>n. note_id n = j) (loaded_notes p w) = None"
    using n by (simp add: findIndex_None)
  then obtain w2 where 2: "updateNote p now j e w = (Inl (Error ''Note not found''), w2)"
    "items w2 = items w"
    using updateNote_missing by blast
  have "find (\<lambda>t. todo_id t = i) (loaded_todos w) = None"
    using t by (simp add: find_None_iff)
  then obtain w3 where 3: "getTodoById i w = (Inr None, w3)" "items w3 = items w"
    using getTodoById_eq [of i w] by auto
  have "find (\<lambda>n. note_id n = j) (loaded_notes p w) = None"
    using n by (simp add: find_None_iff)
  then obtain w4 where 4: "getNoteById p j w = (Inr None, w4)" "items w4 = items w"
    using getNoteById_eq [of p j w] by auto
  show ?thesis
    using 1 2 3 4 by (simp add: toggleTodo_def togglePinNote_def)
qed


theorem update_missing_id_throws_witness:
  "''42'' \<notin> todo_id ` set (stored_todos home_world)
   \<and> ''42'' \<notin> note_id ` set (stored_notes home_world)
   \<and> fst (updateTodo 1700000000001 ''42'' rename_rent home_world) = Inl (Error ''Todo not found'')
   \<and> fst (updateNote engine_parse 1700000000001 ''42'' pin_it home_world)
       = Inl (Error ''Note not found'')
   \<and> fst (toggleTodo 1700000000001 ''42'' home_world) = Inr None
   \<and> fst (togglePinNote engine_parse 1700000000001 ''42'' home_world) = Inr None
   \<and> stored_todos (snd (updateTodo 1700000000001 ''42'' rename_rent home_world))
       = [todo_milk, todo_rent]"
proof -
  have i: "''42'' \<notin> todo_id ` set (stored_todos home_world)"
    by (simp add: example_eval)
  have j: "''42'' \<notin> note_id ` set (stored_notes home_world)"
    by (simp add: example_eval)
  have s: "stored_todos home_world = [todo_milk, todo_rent]"
    by (simp add: example_eval)
  have "stored_todos (snd (updateTodo 1700000000001 ''42'' rename_rent home_world))
       = [todo_milk, todo_rent]"
    using update_missing_id_throws [OF i j, of 1700000000001 rename_rent] s
    by (simp add: stored_todos_def)
  then show ?thesis
    using i j update_missing_id_throws [OF i j, of 1700000000001 rename_rent engine_parse pin_it]
    by simp
qed

text \<open>
  C9, as the code has it. When no storage call is rejected, \<open>deleteTodo\<close> and
  \<open>deleteNote\<close> return for every id, and the store then holds the records with another
  id (for notes: these records, in the order \<open>getNotes\<close> gave them). For an id that is
  not stored the records are the same as before. A second delete of the same id leaves
  the stored records as the first left them (for notes the same records, and the same
  array when every \<open>updatedAt\<close> is a date).
\<close>

theorem delete_removes_id_idempotent:
  assumes "storage_ok w"
  shows "(\<exists>w1 w2. deleteTodo i w = (Inr (), w1)
            \<and> stored_todos w1 = filter (\<lambda>t. todo_id t \<noteq> i) (stored_todos w)
            \<and> (i \<notin> todo_id ` set (stored_todos w) \<longrightarrow> stored_todos w1 = stored_todos w)
            \<and> deleteTodo i w1 = (Inr (), w2)
            \<and> stored_todos w2 = stored_todos w1)
       \<and> (\<exists>v1 v2. deleteNote p j w = (Inr (), v1)
            \<and> mset (stored_notes v1) = mset (filter (\<lambda>n. note_id n \<noteq> j) (stored_notes w))
            \<and> (j \<notin> note_id ` set (stored_notes w) \<longrightarrow> mset (stored_notes v1) = mset (stored_notes w))
            \<and> deleteNote p j v1 = (Inr (), v2)
            \<and> mset (stored_notes v2) = mset (stored_notes v1)
            \<and> (valid_dates p (stored_notes w) \<longrightarrow> stored_notes v2 = stored_notes v1))"
proof (rule conjI)
  obtain w1 where 1: "deleteTodo i w = (Inr (), w1)"
    "stored_todos w1 = filter (\<lambda>t. todo_id t \<noteq> i) (stored_todos w)" "storage_ok w1"
    using deleteTodo_ok [OF assms] by blast
  obtain w2 where 2: "deleteTodo i w1 = (Inr (), w2)"
    "stored_todos w2 = filter (\<lambda>t. todo_id t \<noteq> i) (stored_todos w1)"
    using deleteTodo_ok [OF 1(3)] by blast
  have "stored_todos w2 = stored_todos w1"
    unfolding 2(2) 1(2) by simp
  moreover have "i \<notin> todo_id ` set (stored_todos w) \<longrightarrow> stored_todos w1 = stored_todos w"
    unfolding 1(2) by (simp add: filter_absent_id)
  ultimately show "\<exists>w1 w2. deleteTodo i w = (Inr (), w1)
            \<and> stored_todos w1 = filter (\<lambda>t. todo_id t \<noteq> i) (stored_todos w)
            \<and> (i \<notin> todo_id ` set (stored_todos w) \<longrightarrow> stored_todos w1 = stored_todos w)
            \<and> deleteTodo i w1 = (Inr (), w2)
            \<and> stored_todos w2 = stored_todos w1"
    using 1(1,2) 2(1) by blast
next
  let ?keep = "filter (\<lambda>n. note_id n \<noteq> j)" and ?sort = "Array_sort (compareNotes p)"
  obtain v1 where 1: "deleteNote p j w = (Inr (), v1)"
    "stored_notes v1 = ?keep (?sort (stored_notes w))" "storage_ok v1"
    using deleteNote_ok [OF assms] by blast
  obtain v2 where 2: "deleteNote p j v1 = (Inr (), v2)"
    "stored_notes v2 = ?keep (?sort (stored_notes v1))"
    using deleteNote_ok [OF 1(3)] by blast
  have a: "mset (stored_notes v1) = mset (?keep (stored_notes w))"
    unfolding 1(2) by (rule mset_filter_Array_sort)
  have b: "j \<notin> note_id ` set (stored_notes w) \<longrightarrow> mset (stored_notes v1) = mset (stored_notes w)"
    unfolding a by (simp add: filter_absent_id)
  have "mset (stored_notes v2) = mset (?keep (stored_notes v1))"
    unfolding 2(2) by (rule mset_filter_Array_sort)
  also have "?keep (stored_notes v1) = stored_notes v1"
    unfolding 1(2) by simp
  finally have c: "mset (stored_notes v2) = mset (stored_notes v1)" .
  have d: "stored_notes v2 = stored_notes v1" if "valid_dates p (stored_notes w)"
  proof -
    have "sorted_wrt (goes_before (compareNotes p)) (?sort (stored_notes w))"
      using that by (rule sorted_getNotes_order)
    then have "sorted_wrt (goes_before (compareNotes p)) (stored_notes v1)"
      unfolding 1(2) by (rule sorted_wrt_filter)
    then have "?sort (stored_notes v1) = stored_notes v1"
      by (rule Array_sort_sorted_id)
    then show ?thesis
      unfolding 2(2) by (simp add: 1(2))
  qed
  show "\<exists>v1 v2. deleteNote p j w = (Inr (), v1)
            \<and> mset (stored_notes v1) = mset (filter (\<lambda>n. note_id n \<noteq> j) (stored_notes w))
            \<and> (j \<notin> note_id ` set (stored_notes w) \<longrightarrow> mset (stored_notes v1) = mset (stored_notes w))
            \<and> deleteNote p j v1 = (Inr (), v2)
            \<and> mset (stored_notes v2) = mset (stored_notes v1)
            \<and> (valid_dates p (stored_notes w) \<longrightarrow> stored_notes v2 = stored_notes v1)"
    using 1(1) 2(1) a b c d by blast
qed

theorem delete_removes_id_idempotent_witness:
  "storage_ok home_world
   \<and> ''42'' \<notin> todo_id ` set (stored_todos home_world)
   \<and> valid_dates engine_parse (stored_notes home_world)
   \<and> stored_notes (snd (deleteNote engine_parse ''1703980800000'' home_world))
       = [note_jan2, note_jan1]
   \<and> (\<exists>w1 w2. deleteTodo ''42'' home_world = (Inr (), w1)
         \<and> stored_todos w1 = stored_todos home_world
         \<and> deleteTodo ''42'' w1 = (Inr (), w2)
         \<and> stored_todos w2 = stored_todos w1)
   \<and> (\<exists>v1 v2. deleteNote engine_parse ''1703980800000'' home_world = (Inr (), v1)
         \<and> deleteNote engine_parse ''1703980800000'' v1 = (Inr (), v2)
         \<and> stored_notes v2 = stored_notes v1)"
proof -
  have ok: "storage_ok home_world"
    by (simp add: example_eval)
  have i: "''42'' \<notin> todo_id ` set (stored_todos home_world)"
    by (simp add: example_eval)
  have v: "valid_dates engine_parse (stored_notes home_world)"
    by (simp add: example_eval valid_dates_def)
  have s: "stored_notes (snd (deleteNote engine_parse ''1703980800000'' home_world))
       = [note_jan2, note_jan1]"
    by (simp add: service_eval example_eval)
  show ?thesis
    using ok i v s
      delete_removes_id_idempotent [OF ok, where i = "''42''" and j = "''1703980800000''"
        and p = engine_parse]
    by blast
qed

text \<open>
  C9 as stated, for every id whatever the storage does, fails: when the read is rejected
  \<open>getTodos\<close> returns the empty list and \<open>deleteTodo\<close> of an id that is not stored
  writes the empty collection over the two stored todos; when the write is rejected
  \<open>deleteTodo\<close> throws.
\<close>

theorem delete_rejected_call:
  "stored_todos (home_world\<lparr>faults := [True]\<rparr>) = [todo_milk, todo_rent]
   \<and> ''42'' \<notin> todo_id ` set (stored_todos (home_world\<lparr>faults := [True]\<rparr>))
   \<and> fst (deleteTodo ''42'' (home_world\<lparr>faults := [True]\<rparr>)) = Inr ()
   \<and> stored_todos (snd (deleteTodo ''42'' (home_world\<lparr>faults := [True]\<rparr>))) = []
   \<and> fst (deleteTodo ''42'' (home_world\<lparr>faults := [False, True]\<rparr>))
       = Inl (Error ''Failed to save todos'')"
  by (simp add: service_eval example_eval)

text \<open>
  C10, as the code has it. \<open>getTodosStats\<close> returns counts with
  \<open>completed + active = total\<close>. When the storage read is not rejected, \<open>total\<close> is
  the number of stored todos and \<open>highPriority\<close> counts the todos that have priority
  high and are not completed, so the high-priority todos are those it counts and the
  completed ones.
\<close>

theorem getTodosStats_counts:
  "\<exists>s w1. getTodosStats w = (Inr s, w1)
     \<and> completed s + active s = total s
     \<and> (\<not> next_call_fails w \<longrightarrow>
          total s = length (stored_todos w)
          \<and> highPriority s =
              length (filter (\<lambda>t. todo_priority t = High \<and> \<not> todo_completed t) (stored_todos w))
          \<and> length (filter (\<lambda>t. todo_priority t = High) (stored_todos w)) =
              highPriority s
              + length (filter (\<lambda>t. todo_priority t = High \<and> todo_completed t) (stored_todos w)))"
proof -
  let ?xs = "loaded_todos w"
  let ?s = "\<lparr> total = length ?xs,
             completed = length (filter (\<lambda>t. todo_completed t) ?xs),
             active = length (filter (\<lambda>t. \<not> todo_completed t) ?xs),
             highPriority = length (filter (\<lambda>t. todo_priority t = High \<and> \<not> todo_completed t) ?xs) \<rparr>"
  obtain w1 where r: "getTodosStats w = (Inr ?s, w1)"
    using getTodosStats_eq [of w] by blast
  have sum: "completed ?s + active ?s = total ?s"
    by (simp add: length_filter_split)
  have l: "?xs = stored_todos w" if "\<not> next_call_fails w"
    using that by (simp add: loaded_todos_def)
  have hp: "length (filter (\<lambda>t. todo_priority t = High) ?xs) =
      highPriority ?s + length (filter (\<lambda>t. todo_priority t = High \<and> todo_completed t) ?xs)"
    using length_filter_conj_split [of "\<lambda>t. todo_priority t = High" ?xs todo_completed]
    by simp
  have "\<not> next_call_fails w \<longrightarrow>
          total ?s = length (stored_todos w)
          \<and> highPriority ?s =
              length (filter (\<lambda>t. todo_priority t = High \<and> \<not> todo_completed t) (stored_todos w))
          \<and> length (filter (\<lambda>t. todo_priority t = High) (stored_todos w)) =
              highPriority ?s
              + length (filter (\<lambda>t. todo_priority t = High \<and> todo_completed t) (stored_todos w))"
    using hp l by auto
  with r sum show ?thesis by blast
qed

theorem getTodosStats_counts_witness:
  "\<not> next_call_fails home_world
   \<and> fst (getTodosStats home_world)
       = Inr \<lparr> total = 2, completed = 1, active = 1, highPriority = 1 \<rparr>
   \<and> (\<exists>s w1. getTodosStats home_world = (Inr s, w1)
         \<and> total s = length (stored_todos home_world)
         \<and> completed s + active s = total s)"
proof -
  have ok: "\<not> next_call_fails home_world"
    by (simp add: example_eval next_fault_def)
  have "fst (getTodosStats home_world)
       = Inr \<lparr> total = 2, completed = 1, active = 1, highPriority = 1 \<rparr>"
    by (simp add: service_eval example_eval)
  then show ?thesis
    using ok getTodosStats_counts [of home_world] by blast
qed

text \<open>
  C10 as stated, for every stored todo collection, fails: when the storage read is
  rejected the counts are those of the empty list, with two todos stored.
\<close>

theorem getTodosStats_rejected_read_counts_nothing:
  "stored_todos (home_world\<lparr>faults := [True]\<rparr>) = [todo_milk, todo_rent]
   \<and> fst (getTodosStats (home_world\<lparr>faults := [True]\<rparr>))
       = Inr \<lparr> total = 0, completed = 0, active = 0, highPriority = 0 \<rparr>
   \<and> (0 :: nat) \<noteq> length [todo_milk, todo_rent]"
  by (simp add: service_eval example_eval)

end
